theory Spec2Isabelle
  imports Complex_Main "HOL-Library.Sublist" "HOL-Library.AList"
begin

chapter \<open>The recommendation server (\<^verbatim>\<open>src/server.js\<close>)\<close>

text \<open>
  The model follows \<^verbatim>\<open>server.js\<close> function by function. Module-level mutable state
  (\<^verbatim>\<open>responseCache\<close>, \<^verbatim>\<open>pendingRequests\<close>, the user collection) is passed explicitly,
  exceptions are values of type \<open>error\<close>, and everything the outside world decides (the
  replies of the two model endpoints, the practice-problem adapter, the clock) is a
  parameter. The built-ins \<^verbatim>\<open>JSON.parse\<close> and \<^verbatim>\<open>Array.prototype.join\<close> are parameters as well.
\<close>

section \<open>JavaScript values\<close>

text \<open>
  Values that travel through response bodies and recommendation lists. Strings are byte
  strings (UTF-8); a JavaScript object is the association list of its own properties.
\<close>

datatype jsval =
    JUndefined
  | JNull
  | JBool bool
  | JNum rat
  | JStr string
  | JArr "jsval list"
  | JObj "(string \<times> jsval) list"

datatype error =
    AxiosError "nat option"
  | TypeError
  | SyntaxError
  | InvalidJSON
  | AdapterError
  | ValidationError

text \<open>\<^verbatim>\<open>if (v)\<close>, \<^verbatim>\<open>v || d\<close>: the truthiness of a value.\<close>

fun truthy :: "jsval \<Rightarrow> bool" where
  "truthy JUndefined = False"
| "truthy JNull = False"
| "truthy (JBool b) = b"
| "truthy (JNum n) = (n \<noteq> 0)"
| "truthy (JStr s) = (s \<noteq> [])"
| "truthy (JArr xs) = True"
| "truthy (JObj kvs) = True"

fun nullish :: "jsval \<Rightarrow> bool" where
  "nullish JUndefined = True"
| "nullish JNull = True"
| "nullish v = False"

text \<open>
  \<^verbatim>\<open>v.k\<close> for one of the property names the server reads (\<^verbatim>\<open>candidates\<close>, \<^verbatim>\<open>content\<close>,
  \<^verbatim>\<open>parts\<close>, \<^verbatim>\<open>text\<close>, \<^verbatim>\<open>similar_problems\<close>, \<^verbatim>\<open>hints\<close>, \<^verbatim>\<open>solution_outline\<close>): none of
  them is a built-in property of strings, arrays or numbers, so only objects have them.
  \<^verbatim>\<open>v[0]\<close> is the first element of an array, the first character of a string, the
  property \<^verbatim>\<open>"0"\<close> of an object. On \<^verbatim>\<open>null\<close> and \<^verbatim>\<open>undefined\<close> a property read throws;
  the callers below guard it (\<open>opt_chain\<close>) or turn it into a \<open>TypeError\<close>.
\<close>

fun get_field :: "string \<Rightarrow> jsval \<Rightarrow> jsval" where
  "get_field k (JObj kvs) = (case map_of kvs k of Some v \<Rightarrow> v | None \<Rightarrow> JUndefined)"
| "get_field k v = JUndefined"

fun get_first :: "jsval \<Rightarrow> jsval" where
  "get_first (JArr xs) = (case xs of [] \<Rightarrow> JUndefined | x # _ \<Rightarrow> x)"
| "get_first (JStr s) = (case s of [] \<Rightarrow> JUndefined | c # _ \<Rightarrow> JStr [c])"
| "get_first (JObj kvs) = (case map_of kvs ''0'' of Some v \<Rightarrow> v | None \<Rightarrow> JUndefined)"
| "get_first v = JUndefined"

text \<open>Optional chaining, \<^verbatim>\<open>v?.k\<close> and \<^verbatim>\<open>v?.[0]\<close>.\<close>

definition opt_chain :: "(jsval \<Rightarrow> jsval) \<Rightarrow> jsval \<Rightarrow> jsval" where
  "opt_chain f v = (if nullish v then JUndefined else f v)"

section \<open>Response cache (lines 57--75)\<close>

text \<open>
  \<^verbatim>\<open>responseCache\<close> is a \<^verbatim>\<open>Map\<close> from cache keys to entries \<^verbatim>\<open>{ data, timestamp }\<close>.
  \<^verbatim>\<open>Date.now()\<close> is an integer number of milliseconds and is passed as \<open>now\<close>. The
  payload type is polymorphic: the cache never inspects it.
\<close>

record 'a entry =
  data :: 'a
  timestamp :: int

type_synonym 'a cache = "string \<rightharpoonup> 'a entry"

definition CACHE_TTL :: int where
  "CACHE_TTL = 1000 * 60 * 30"

text \<open>
  \<^verbatim>\<open>getCache\<close> returns \<^verbatim>\<open>null\<close> (here \<open>None\<close>) or the stored payload, and deletes an
  expired entry on the way; the updated map is returned with the answer.
\<close>

definition getCache :: "string \<Rightarrow> int \<Rightarrow> 'a cache \<Rightarrow> 'a option \<times> 'a cache" where
  "getCache key now cache =
     (case cache key of
        None \<Rightarrow> (None, cache)
      | Some e \<Rightarrow>
          (let isExpired = (now - timestamp e > CACHE_TTL) in
           if isExpired then (None, cache(key := None))
           else (Some (data e), cache)))"

definition setCache :: "string \<Rightarrow> 'a \<Rightarrow> int \<Rightarrow> 'a cache \<Rightarrow> 'a cache" where
  "setCache key d now cache = cache(key \<mapsto> \<lparr>data = d, timestamp = now\<rparr>)"

section \<open>Scoring (lines 22--51 and 92--119)\<close>

text \<open>
  \<^verbatim>\<open>toLowerCase\<close> on the ASCII letters (other bytes are left alone, so this is
  \<^verbatim>\<open>String.prototype.toLowerCase\<close> on ASCII strings; letters outside ASCII are not
  modelled) and \<^verbatim>\<open>String.prototype.includes\<close>.
\<close>

definition toLowerCase_char :: "char \<Rightarrow> char" where
  "toLowerCase_char c =
     (case map_of (zip ''ABCDEFGHIJKLMNOPQRSTUVWXYZ'' ''abcdefghijklmnopqrstuvwxyz'') c of
        Some l \<Rightarrow> l
      | None \<Rightarrow> c)"

definition toLowerCase :: "string \<Rightarrow> string" where
  "toLowerCase s = map toLowerCase_char s"

fun str_includes :: "string \<Rightarrow> string \<Rightarrow> bool" where
  "str_includes [] sub = (sub = [])"
| "str_includes (c # cs) sub = (prefix sub (c # cs) \<or> str_includes cs sub)"

definition topicGraph :: "(string \<times> string list) list" where
  "topicGraph =
     [(''machine learning'',
        [''deep learning'', ''neural networks'', ''ai'', ''data science'', ''supervised learning'']),
      (''data structures'',
        [''algorithms'', ''time complexity'', ''recursion'', ''trees'', ''graphs'']),
      (''dbms'',
        [''sql'', ''database design'', ''normalization'', ''transactions'', ''indexing'']),
      (''python'',
        [''automation'', ''data science'', ''flask'', ''django'', ''pandas''])]"

text \<open>
  \<^verbatim>\<open>scoreCourse\<close>: the running \<^verbatim>\<open>score\<close> is rebound at every step, in the order of the
  source; the two \<^verbatim>\<open>forEach\<close> loops are left folds. \<^verbatim>\<open>topicGraph[baseTopic]\<close> is read
  here as a lookup among the four entries of the table; the two names that the table
  inherits as an object, \<^verbatim>\<open>constructor\<close> and \<^verbatim>\<open>__proto__\<close>, are not topics of this
  function.
\<close>

definition scoreCourse :: "string \<Rightarrow> string \<Rightarrow> string list \<Rightarrow> int" where
  "scoreCourse courseTitle topic dominantTopics =
     (let title = toLowerCase courseTitle;
          baseTopic = toLowerCase topic;
          score = 0;
          score = (if str_includes title baseTopic then score + 5 else score);
          related = (case map_of topicGraph baseTopic of Some rs \<Rightarrow> rs | None \<Rightarrow> []);
          score = foldl (\<lambda>sc rel. if str_includes title rel then sc + 3 else sc) score related;
          score = foldl (\<lambda>sc userTopic. if str_includes title userTopic then sc + 2 else sc)
                    score dominantTopics;
          score = (if str_includes title ''beginner'' then score + 1 else score);
          score = (if str_includes title ''intermediate'' then score + 2 else score);
          score = (if str_includes title ''advanced'' then score + 3 else score)
      in score)"

section \<open>Profile weights: IEEE-754 doubles\<close>

text \<open>
  A weight is a JavaScript number, that is an IEEE-754 binary64 value, and
  \<^verbatim>\<open>w *= 0.98\<close> and \<^verbatim>\<open>w + 1\<close> round their exact results to the nearest double, ties to
  even. Every finite non-negative double is a natural multiple of \<open>2^-1074\<close>, the
  smallest positive double; the model represents a weight by that multiple, so that
  \<open>1\<close> stands for \<open>5e-324\<close> and \<open>2 ^ 1074\<close> for \<open>1.0\<close>. A natural number \<open>w\<close> stands for a
  double when it is below \<open>2 ^ 2098\<close> (the value \<open>2^1024\<close>) and spans at most 53 binary
  digits. The numbers in a profile come from \<^verbatim>\<open>(w || 0) + 1\<close> and \<^verbatim>\<open>w *= 0.98\<close> only, so
  they are finite and non-negative.
\<close>

type_synonym double = nat

fun bitlen :: "nat \<Rightarrow> nat" where
  "bitlen n = (if n = 0 then 0 else Suc (bitlen (n div 2)))"

declare bitlen.simps [simp del]

definition is_double :: "nat \<Rightarrow> bool" where
  "is_double w = (w < 2 ^ 2098 \<and> 2 ^ (bitlen w - 53) dvd w)"

text \<open>\<open>num / 2 ^ s\<close> rounded to the nearest integer, ties to the even one.\<close>

definition round_half_even :: "nat \<Rightarrow> nat \<Rightarrow> nat" where
  "round_half_even num s =
     (let q = num div 2 ^ s; r = num mod 2 ^ s in
      if 2 * r < 2 ^ s then q
      else if 2 * r > 2 ^ s then q + 1
      else if even q then q else q + 1)"

text \<open>
  The double nearest to the exact value \<open>num / 2 ^ d\<close> (in units of \<open>2^-1074\<close>): the
  result keeps the 53 leading binary digits, and nothing below one unit.
\<close>

definition round_double :: "nat \<Rightarrow> nat \<Rightarrow> double" where
  "round_double num d =
     (let s = max (bitlen num - 53) d in round_half_even num s * 2 ^ (s - d))"

text \<open>
  The literal \<^verbatim>\<open>0.98\<close> is the double \<open>DECAY / 2 ^ 53\<close> (hexadecimal
  \<^verbatim>\<open>0x1.f5c28f5c28f5cp-1\<close>), and \<^verbatim>\<open>1\<close> is \<open>ONE\<close> units.
\<close>

definition DECAY :: nat where
  "DECAY = 8827055269646172"

definition ONE :: double where
  "ONE = 2 ^ 1074"

text \<open>\<^verbatim>\<open>w * 0.98\<close> and \<^verbatim>\<open>w + 1\<close>.\<close>

definition decay :: "double \<Rightarrow> double" where
  "decay w = round_double (w * DECAY) 53"

definition increment :: "double \<Rightarrow> double" where
  "increment w = round_double (w + ONE) 0"

section \<open>Decay and reinforcement of the profile (lines 342--350)\<close>

text \<open>
  \<^verbatim>\<open>user.weightedProfile\<close> is a plain object, here the association list of its own
  properties. The handler computes with whatever it finds there: a number stays a
  number under \<^verbatim>\<open>w *= 0.98\<close> and \<^verbatim>\<open>w + 1\<close>, but a property that the object does not own is
  looked up in \<^verbatim>\<open>Object.prototype\<close>, and for the key \<^verbatim>\<open>constructor\<close> the read yields the
  function \<^verbatim>\<open>Object\<close>, which is truthy and turns \<^verbatim>\<open>+ 1\<close> into a concatenation of strings.
  So a weight is a finite double, \<^verbatim>\<open>NaN\<close>, or a string of that origin:
  \<^verbatim>\<open>function Object() { [native code] }\<close> followed by one or more digits \<^verbatim>\<open>1\<close>.
\<close>

datatype weight = Number double | NaN | SourceText

type_synonym profile = "(string \<times> weight) list"

text \<open>
  \<^verbatim>\<open>String.prototype.trim\<close> strips white space and line terminators from both ends: the
  code points U+0009 to U+000D, U+0020, U+00A0, U+1680, U+2000 to U+200A, U+2028, U+2029,
  U+202F, U+205F, U+3000 and U+FEFF, here in their UTF-8 encoding. \<open>strip\<close> removes
  leading occurrences of the given byte sequences; the trailing ones are removed on the
  reversed string.
\<close>

definition white_space :: "string list" where
  "white_space =
     [[CHR 0x09], [CHR 0x0A], [CHR 0x0B], [CHR 0x0C], [CHR 0x0D], [CHR 0x20],
      [CHR 0xC2, CHR 0xA0],
      [CHR 0xE1, CHR 0x9A, CHR 0x80],
      [CHR 0xE2, CHR 0x80, CHR 0x80], [CHR 0xE2, CHR 0x80, CHR 0x81],
      [CHR 0xE2, CHR 0x80, CHR 0x82], [CHR 0xE2, CHR 0x80, CHR 0x83],
      [CHR 0xE2, CHR 0x80, CHR 0x84], [CHR 0xE2, CHR 0x80, CHR 0x85],
      [CHR 0xE2, CHR 0x80, CHR 0x86], [CHR 0xE2, CHR 0x80, CHR 0x87],
      [CHR 0xE2, CHR 0x80, CHR 0x88], [CHR 0xE2, CHR 0x80, CHR 0x89],
      [CHR 0xE2, CHR 0x80, CHR 0x8A],
      [CHR 0xE2, CHR 0x80, CHR 0xA8], [CHR 0xE2, CHR 0x80, CHR 0xA9],
      [CHR 0xE2, CHR 0x80, CHR 0xAF],
      [CHR 0xE2, CHR 0x81, CHR 0x9F],
      [CHR 0xE3, CHR 0x80, CHR 0x80],
      [CHR 0xEF, CHR 0xBB, CHR 0xBF]]"

function strip :: "string list \<Rightarrow> string \<Rightarrow> string" where
  "strip pats s =
     (case find (\<lambda>ws. prefix ws s) pats of
        None \<Rightarrow> s
      | Some ws \<Rightarrow> if ws = [] then s else strip pats (drop (length ws) s))"
  by pat_completeness auto

termination
proof (relation "measure (\<lambda>(pats, s). length s)")
  show "wf (measure (\<lambda>(pats, s). length s))"
    by simp
next
  fix pats :: "string list" and s ws :: string
  assume found: "find (\<lambda>ws. prefix ws s) pats = Some ws" and ne: "ws \<noteq> []"
  from found have "prefix ws s"
    by (auto simp: find_Some_iff)
  with ne have "s \<noteq> []"
    by auto
  with ne show "((pats, drop (length ws) s), (pats, s)) \<in> measure (\<lambda>(pats, s). length s)"
    by simp
qed

declare strip.simps [simp del]

definition trim :: "string \<Rightarrow> string" where
  "trim s = rev (strip (map rev white_space) (rev (strip white_space s)))"

text \<open>
  The \<^verbatim>\<open>for (let key in user.weightedProfile)\<close> loop with \<^verbatim>\<open>w *= 0.98\<close>: a string of the
  kind above is not a numeral and converts to \<^verbatim>\<open>NaN\<close>. \<^verbatim>\<open>Object.prototype\<close> has no
  enumerable property, so the loop visits the own properties only.
\<close>

fun times_decay :: "weight \<Rightarrow> weight" where
  "times_decay (Number w) = Number (decay w)"
| "times_decay NaN = NaN"
| "times_decay SourceText = NaN"

definition decay_all :: "profile \<Rightarrow> profile" where
  "decay_all p = map (\<lambda>(key, w). (key, times_decay w)) p"

text \<open>
  \<^verbatim>\<open>(w || 0) + 1\<close> for an own property: zero and \<^verbatim>\<open>NaN\<close> are falsy, a string of the kind
  above is truthy and gets another \<^verbatim>\<open>1\<close> appended.
\<close>

fun or_zero_plus_one :: "weight \<Rightarrow> weight" where
  "or_zero_plus_one (Number w) = Number (increment w)"
| "or_zero_plus_one NaN = Number (increment 0)"
| "or_zero_plus_one SourceText = SourceText"

text \<open>
  \<^verbatim>\<open>if (topic && topic.trim() !== "")\<close>; an absent topic is \<open>None\<close>. The keys are in lower
  case, and \<^verbatim>\<open>Object.prototype\<close> has two properties with such a name. For a profile
  without an own property of that name, \<^verbatim>\<open>constructor\<close> is read as a function, so that
  the string is stored, and \<^verbatim>\<open>__proto__\<close> is read as an object, and the assignment of a
  string to it is ignored. Every other absent key is read as \<^verbatim>\<open>undefined\<close> and gets
  \<open>0 + 1\<close>.
\<close>

definition reinforce :: "string option \<Rightarrow> profile \<Rightarrow> profile" where
  "reinforce topic p =
     (case topic of
        None \<Rightarrow> p
      | Some t \<Rightarrow>
          if t \<noteq> [] \<and> trim t \<noteq> [] then
            (let normalized = trim (toLowerCase t) in
             case map_of p normalized of
               Some w \<Rightarrow> AList.update normalized (or_zero_plus_one w) p
             | None \<Rightarrow>
                 if normalized = ''__proto__'' then p
                 else if normalized = ''constructor'' then AList.update normalized SourceText p
                 else AList.update normalized (Number (increment 0)) p)
          else p)"

section \<open>Generation gateway (lines 140--168 and 553--564)\<close>

text \<open>
  \<^verbatim>\<open>axios.post\<close> either resolves with a response whose body is \<^verbatim>\<open>response.data\<close>, or
  rejects with an error whose \<^verbatim>\<open>err.response?.status\<close> is the HTTP status, if there was
  a response at all. A \<open>network\<close> gives the reply to the \<open>i\<close>-th request sent to an
  endpoint during one call of \<^verbatim>\<open>generateWithAI\<close>; the prompt only travels in the payload
  and does not occur in the model. The calls are recorded in a trace, together with
  the \<^verbatim>\<open>setTimeout\<close> delays in milliseconds.
\<close>

datatype endpoint = Primary | Fallback

datatype reply = Resolved jsval | Rejected "nat option"

datatype event = Post endpoint | Delay nat

type_synonym network = "endpoint \<Rightarrow> nat \<Rightarrow> reply"

text \<open>\<^verbatim>\<open>response.data.candidates?.[0]?.content?.parts?.[0]?.text || "[]"\<close>\<close>

definition response_text :: "jsval \<Rightarrow> error + jsval" where
  "response_text d =
     (if nullish d then Inl TypeError
      else
        let candidates = get_field ''candidates'' d;
            candidate = opt_chain get_first candidates;
            content = opt_chain (get_field ''content'') candidate;
            parts = opt_chain (get_field ''parts'') content;
            part = opt_chain get_first parts;
            text = opt_chain (get_field ''text'') part
        in Inr (if truthy text then text else JStr ''[]''))"

fun callGeminiWithRetry ::
  "network \<Rightarrow> endpoint \<Rightarrow> nat \<Rightarrow> nat \<Rightarrow> event list \<times> (error + jsval)" where
  "callGeminiWithRetry net url i retries =
     (case net url i of
        Resolved d \<Rightarrow> ([Post url], Inr d)
      | Rejected status \<Rightarrow>
          if status = Some 429 \<and> retries > 0 then
            (let (tr, res) = callGeminiWithRetry net url (Suc i) (retries - 1)
             in (Post url # Delay 2000 # tr, res))
          else ([Post url], Inl (AxiosError status)))"

declare callGeminiWithRetry.simps [simp del]

text \<open>
  \<^verbatim>\<open>generateWithAI\<close>: the outer \<^verbatim>\<open>try\<close> covers the primary call and the read of its body,
  the inner one the single fallback call and the read of its body. The result type
  leaves room for an exception.
\<close>

definition generateWithAI :: "network \<Rightarrow> event list \<times> (error + jsval)" where
  "generateWithAI net =
     (let (tr, response) = callGeminiWithRetry net Primary 0 3 in
      case (case response of Inl e \<Rightarrow> Inl e | Inr d \<Rightarrow> response_text d) of
        Inr text \<Rightarrow> (tr, Inr text)
      | Inl _ \<Rightarrow>
          (case net Fallback 0 of
             Resolved d \<Rightarrow>
               (case response_text d of
                  Inr text \<Rightarrow> (tr @ [Post Fallback], Inr text)
                | Inl _ \<Rightarrow> (tr @ [Post Fallback], Inr (JStr ''[]'')))
           | Rejected _ \<Rightarrow> (tr @ [Post Fallback], Inr (JStr ''[]''))))"

section \<open>Problem-practice pipelines (lines 283--311 and 373--453)\<close>

text \<open>
  \<^verbatim>\<open>text.match(/\{[\s\S]*\}/)\<close>: the span from the first opening brace to the last
  closing brace after it, if there is one.
\<close>

definition match_object :: "string \<Rightarrow> string option" where
  "match_object s =
     (let t = dropWhile (\<lambda>c. c \<noteq> CHR ''{'') s in
      if t = [] then None
      else
        let body = rev (dropWhile (\<lambda>c. c \<noteq> CHR ''}'') (rev (tl t))) in
        if body = [] then None else Some (CHR ''{'' # body))"

datatype result = Recommendations "jsval list"

text \<open>
  What one request finds outside the server: the model endpoints, the two built-ins,
  the practice-problem adapter \<^verbatim>\<open>fetchLeetCodeCandidates\<close> (an exception or the array it
  returns), and the outcome of the Coursera, Udemy and YouTube pipelines, which are
  not modelled further.
\<close>

record 'r env =
  network :: network
  JSON_parse :: "string \<Rightarrow> jsval option"
  Array_join :: "jsval list \<Rightarrow> string \<Rightarrow> string"
  fetchLeetCodeCandidates :: "string \<Rightarrow> error + jsval list"
  other_platforms :: "'r \<Rightarrow> string \<Rightarrow> int \<Rightarrow> result cache \<Rightarrow>
                        event list \<times> result cache \<times> (error + result)"

text \<open>
  \<^verbatim>\<open>rankAndGenerate\<close>: a string without a brace span throws \<^verbatim>\<open>Error("Invalid JSON")\<close>, a
  text that is not a string has no \<^verbatim>\<open>match\<close> method, and \<^verbatim>\<open>JSON.parse\<close> may throw.
\<close>

definition rankAndGenerate :: "'r env \<Rightarrow> event list \<times> (error + jsval)" where
  "rankAndGenerate e =
     (let (tr, text) = generateWithAI (network e) in
      (tr,
       case text of
         Inl err \<Rightarrow> Inl err
       | Inr (JStr s) \<Rightarrow>
           (case match_object s of
              None \<Rightarrow> Inl InvalidJSON
            | Some m \<Rightarrow>
                (case JSON_parse e m of
                   None \<Rightarrow> Inl SyntaxError
                 | Some ai \<Rightarrow> Inr ai))
       | Inr _ \<Rightarrow> Inl TypeError))"

text \<open>The spread \<^verbatim>\<open>[...v]\<close>: arrays and strings are iterable.\<close>

fun spread :: "jsval \<Rightarrow> error + jsval list" where
  "spread (JArr xs) = Inr xs"
| "spread (JStr s) = Inr (map (\<lambda>c. JStr [c]) s)"
| "spread v = Inl TypeError"

text \<open>
  The object \<^verbatim>\<open>normalized\<close> built in the \<^verbatim>\<open>try\<close> block of both branches; the two titles
  start with an emoji, given by its UTF-8 bytes.
\<close>

definition normalized_result :: "'r env \<Rightarrow> jsval \<Rightarrow> error + result" where
  "normalized_result e ai =
     (if nullish ai then Inl TypeError
      else
        case spread (get_field ''similar_problems'' ai) of
          Inl err \<Rightarrow> Inl err
        | Inr similar_problems \<Rightarrow>
            (case get_field ''hints'' ai of
               JArr hints \<Rightarrow>
                 Inr (Recommendations
                   (similar_problems @
                    [JObj [(''title'',
                              JStr ([CHR 0xF0, CHR 0x9F, CHR 0x92, CHR 0xA1] @ '' AI Hints'')),
                           (''description'', JStr (Array_join e hints [CHR 0x0A, CHR 0x0A])),
                           (''url'', JStr ''#'')],
                     JObj [(''title'',
                              JStr ([CHR 0xF0, CHR 0x9F, CHR 0xA7, CHR 0xA0] @ '' Solution Strategy'')),
                           (''description'', get_field ''solution_outline'' ai),
                           (''url'', JStr ''#'')]]))
             | _ \<Rightarrow> Inl TypeError))"

text \<open>The body of the \<^verbatim>\<open>try\<close> block up to \<^verbatim>\<open>setCache\<close>.\<close>

definition ai_recommendations :: "'r env \<Rightarrow> event list \<times> (error + result)" where
  "ai_recommendations e =
     (let (tr, ai) = rankAndGenerate e in
      (tr, case ai of Inl err \<Rightarrow> Inl err | Inr v \<Rightarrow> normalized_result e v))"

text \<open>
  The two branches take the request's \<^verbatim>\<open>topic\<close> and \<^verbatim>\<open>description\<close> (absent, or a
  string), the cache key and the time of the cache write. \<^verbatim>\<open>!topic\<close> holds for an
  absent and for an empty string. The adapter call is outside the \<^verbatim>\<open>try\<close>.
\<close>

definition leetcode_branch ::
  "'r env \<Rightarrow> string option \<Rightarrow> string option \<Rightarrow> string \<Rightarrow> int \<Rightarrow> result cache \<Rightarrow>
     event list \<times> result cache \<times> (error + result)" where
  "leetcode_branch e topic description cacheKey now cache =
     (case (topic, description) of
        (Some t, Some d) \<Rightarrow>
          if t = [] \<or> d = [] then ([], cache, Inr (Recommendations []))
          else
            (case fetchLeetCodeCandidates e t of
               Inl err \<Rightarrow> ([], cache, Inl err)
             | Inr candidates \<Rightarrow>
                 (let (tr, ai) = ai_recommendations e in
                  case ai of
                    Inr normalized \<Rightarrow>
                      (tr, setCache cacheKey normalized now cache, Inr normalized)
                  | Inl _ \<Rightarrow>
                      (let fallback = Recommendations (take 5 candidates)
                       in (tr, setCache cacheKey fallback now cache, Inr fallback))))
      | _ \<Rightarrow> ([], cache, Inr (Recommendations [])))"

definition hackerrank_branch ::
  "'r env \<Rightarrow> string option \<Rightarrow> string option \<Rightarrow> string \<Rightarrow> int \<Rightarrow> result cache \<Rightarrow>
     event list \<times> result cache \<times> (error + result)" where
  "hackerrank_branch e topic description cacheKey now cache =
     (case (topic, description) of
        (Some t, Some d) \<Rightarrow>
          if t = [] \<or> d = [] then ([], cache, Inr (Recommendations []))
          else
            (case fetchLeetCodeCandidates e t of
               Inl err \<Rightarrow> ([], cache, Inl err)
             | Inr candidates \<Rightarrow>
                 (let (tr, ai) = ai_recommendations e in
                  case ai of
                    Inr normalized \<Rightarrow>
                      (tr, setCache cacheKey normalized now cache, Inr normalized)
                  | Inl _ \<Rightarrow>
                      (tr, cache, Inr (Recommendations (take 5 candidates)))))
      | _ \<Rightarrow> ([], cache, Inr (Recommendations [])))"

section \<open>The request handler (lines 318--552)\<close>

text \<open>
  The fields of \<^verbatim>\<open>req.body\<close>; a field that is present holds a string.
\<close>

record request =
  userId :: "string option"
  platform :: "string option"
  activity_type :: "string option"
  topic :: "string option"
  difficulty :: "string option"
  description :: "string option"

text \<open>
  The user collection maps the \<^verbatim>\<open>userId\<close> of a stored document to the document, which
  is given by its field \<^verbatim>\<open>weightedProfile\<close>, if it has that field. A promise in
  \<^verbatim>\<open>pendingRequests\<close> is identified by the number of the request that created it.
\<close>

datatype document = WithoutProfile | WithProfile profile

record server_state =
  users :: "string \<rightharpoonup> document"
  responseCache :: "result cache"
  pendingRequests :: "string \<rightharpoonup> nat"

text \<open>A value inside a template literal: \<^verbatim>\<open>`${v}`\<close>.\<close>

definition template :: "string option \<Rightarrow> string" where
  "template v = (case v of None \<Rightarrow> ''undefined'' | Some s \<Rightarrow> s)"

definition cacheKey :: "request \<Rightarrow> string" where
  "cacheKey req =
     template (platform req) @ ''-'' @ template (activity_type req) @ ''-'' @ template (topic req)"

text \<open>The async function behind \<^verbatim>\<open>requestPromise\<close> (lines 369--540).\<close>

definition requestPromise ::
  "request env \<Rightarrow> request \<Rightarrow> int \<Rightarrow> result cache \<Rightarrow>
     event list \<times> result cache \<times> (error + result)" where
  "requestPromise e req now cache =
     (if platform req = Some ''LeetCode''
        then leetcode_branch e (topic req) (description req) (cacheKey req) now cache
      else if platform req = Some ''HackerRank''
        then hackerrank_branch e (topic req) (description req) (cacheKey req) now cache
      else if platform req = Some ''Coursera'' \<or> platform req = Some ''Udemy''
              \<or> platform req = Some ''YouTube''
        then other_platforms e req (cacheKey req) now cache
      else ([], cache, Inr (Recommendations [])))"

text \<open>
  What the client of a request gets: \<^verbatim>\<open>res.json(result)\<close> or
  \<^verbatim>\<open>res.status(500).json(...)\<close>.
\<close>

datatype response = Json result | InternalServerError

text \<open>
  The handler runs without interruption from the return of \<^verbatim>\<open>user.save()\<close> to its
  \<^verbatim>\<open>await requestPromise\<close>: no other request can run in between. \<open>recommend_start\<close> is
  the handler up to that point (lines 334--366 and 542), for the request numbered
  \<open>rid\<close> at time \<open>now\<close>. It ends in one of three ways: a response has been sent, from the
  cache or, when \<^verbatim>\<open>save\<close> rejects, from the \<^verbatim>\<open>catch\<close> block; the handler has returned the
  pending promise of another request, without sending anything; or the handler has
  stored its own promise and waits for it.
\<close>

datatype start_outcome = Responded response | ReturnedPending nat | Awaiting

text \<open>
  \<^verbatim>\<open>User.findOne({ userId })\<close>: the stored document with that id, if there is one. A
  request without a \<^verbatim>\<open>userId\<close> finds none: every stored document has one.
\<close>

definition findOne :: "server_state \<Rightarrow> string option \<Rightarrow> document option" where
  "findOne st uid = (case uid of None \<Rightarrow> None | Some u \<Rightarrow> users st u)"

text \<open>
  \<^verbatim>\<open>user.save()\<close> (line 353), given what \<^verbatim>\<open>findOne\<close> had returned and the profile that the
  handler holds in memory. The schema (lines 15--18) declares \<^verbatim>\<open>weightedProfile\<close> with
  \<^verbatim>\<open>type: Object\<close>, which is a path of mixed type, and with the default \<^verbatim>\<open>{}\<close>.
  \<^item> A document made by \<^verbatim>\<open>new User\<close> is validated and inserted as a whole, with the profile
    as it is in memory at that moment; an empty profile is left out of the inserted
    document (the schema option \<^verbatim>\<open>minimize\<close>, which is on by default). \<^verbatim>\<open>userId\<close> is
    \<^verbatim>\<open>required\<close>, so the validation fails, and \<^verbatim>\<open>save\<close> rejects, when it is absent or empty.
  \<^item> For a document that was loaded with its profile, \<^verbatim>\<open>save\<close> writes the paths that
    Mongoose knows as modified. Mongoose does not see a change made inside a value of
    mixed type unless \<^verbatim>\<open>markModified\<close> is called, and the handler changes the weights in
    place (lines 343 and 348) and never calls it: nothing is written.
  \<^item> A document that was loaded without a profile got the default at that moment, and a
    default that had to be set is written by \<^verbatim>\<open>save\<close>, as it is in memory by then.
\<close>

definition save ::
  "server_state \<Rightarrow> string option \<Rightarrow> document option \<Rightarrow> profile \<Rightarrow> error + server_state" where
  "save st uid found user =
     (case uid of
        None \<Rightarrow> (case found of None \<Rightarrow> Inl ValidationError | Some doc \<Rightarrow> Inr st)
      | Some u \<Rightarrow>
          (case found of
             None \<Rightarrow>
               if u = [] then Inl ValidationError
               else Inr (st\<lparr>users := (users st)
                           (u \<mapsto> (if user = [] then WithoutProfile else WithProfile user))\<rparr>)
           | Some WithoutProfile \<Rightarrow> Inr (st\<lparr>users := (users st)(u \<mapsto> WithProfile user)\<rparr>)
           | Some (WithProfile stored) \<Rightarrow> Inr st))"

text \<open>
  Lines 334--350: the profile of the document that \<^verbatim>\<open>findOne\<close> returned (the default when
  it has none) or of a new document, and the profile that the handler holds in memory
  when it calls \<^verbatim>\<open>user.save()\<close>.
\<close>

definition load_or_create :: "document option \<Rightarrow> profile" where
  "load_or_create found = (case found of Some (WithProfile stored) \<Rightarrow> stored | _ \<Rightarrow> [])"

definition profile_in_memory :: "server_state \<Rightarrow> request \<Rightarrow> profile" where
  "profile_in_memory st req =
     (let user = load_or_create (findOne st (userId req));
          user = decay_all user;
          user = reinforce (topic req) user
      in user)"

definition recommend_start ::
  "server_state \<Rightarrow> nat \<Rightarrow> request \<Rightarrow> int \<Rightarrow> server_state \<times> start_outcome" where
  "recommend_start st rid req now =
     (let found = findOne st (userId req);
          user = profile_in_memory st req
      in case save st (userId req) found user of
           Inl err \<Rightarrow> (st, Responded InternalServerError)
         | Inr st \<Rightarrow>
             (let (cached, cache) = getCache (cacheKey req) now (responseCache st);
                  st = st\<lparr>responseCache := cache\<rparr>
              in case cached of
                   Some r \<Rightarrow> (st, Responded (Json r))
                 | None \<Rightarrow>
                     (case pendingRequests st (cacheKey req) of
                        Some promise \<Rightarrow> (st, ReturnedPending promise)
                      | None \<Rightarrow>
                          (st\<lparr>pendingRequests := (pendingRequests st)(cacheKey req \<mapsto> rid)\<rparr>,
                           Awaiting))))"

definition response_sent :: "start_outcome \<Rightarrow> response option" where
  "response_sent out = (case out of Responded r \<Rightarrow> Some r | _ \<Rightarrow> None)"

text \<open>
  \<open>recommend_finish\<close> is the rest of the handler of a request that waits for its own
  promise: the computation settles (its cache write, if any, at time \<open>now\<close>), and the
  handler either deletes the pending entry and sends the result, or lands in the
  \<^verbatim>\<open>catch\<close> block (lines 543--551).
\<close>

definition recommend_finish ::
  "request env \<Rightarrow> server_state \<Rightarrow> request \<Rightarrow> int \<Rightarrow>
     server_state \<times> response \<times> event list" where
  "recommend_finish e st req now =
     (let (tr, cache, settled) = requestPromise e req now (responseCache st);
          st = st\<lparr>responseCache := cache\<rparr>
      in case settled of
           Inr result \<Rightarrow>
             (st\<lparr>pendingRequests := (pendingRequests st)(cacheKey req := None)\<rparr>,
              Json result, tr)
         | Inl err \<Rightarrow> (st, InternalServerError, tr))"

text \<open>
  One request handled from start to end with no other request in between: the lookup
  at time \<open>t1\<close>, the cache write at time \<open>t2\<close>.
\<close>

definition recommend ::
  "request env \<Rightarrow> server_state \<Rightarrow> nat \<Rightarrow> request \<Rightarrow> int \<Rightarrow> int \<Rightarrow>
     server_state \<times> response option \<times> event list" where
  "recommend e st rid req t1 t2 =
     (let (st, out) = recommend_start st rid req t1 in
      case out of
        Awaiting \<Rightarrow>
          (let (st, resp, tr) = recommend_finish e st req t2 in (st, Some resp, tr))
      | _ \<Rightarrow> (st, response_sent out, []))"

section \<open>Notions used to state the properties\<close>

text \<open>
  The trace of \<open>k + 1\<close> attempts on one endpoint with the fixed delay between them,
  a reply that is the HTTP status 429, and the number of retries a call makes: the
  number of leading 429 replies among the first three.
\<close>

definition attempts :: "endpoint \<Rightarrow> nat \<Rightarrow> event list" where
  "attempts url k = Post url # concat (replicate k [Delay 2000, Post url])"

definition rate_limited :: "network \<Rightarrow> endpoint \<Rightarrow> nat \<Rightarrow> bool" where
  "rate_limited net url j = (net url j = Rejected (Some 429))"

definition retries_made :: "network \<Rightarrow> nat" where
  "retries_made net = length (takeWhile (rate_limited net Primary) [0..<3])"

definition rejected :: "reply \<Rightarrow> bool" where
  "rejected r = (case r of Rejected _ \<Rightarrow> True | Resolved _ \<Rightarrow> False)"

text \<open>
  The primary endpoint has answered when its last attempt resolved with a body that
  can be read (a body that is \<^verbatim>\<open>null\<close> makes the read throw).
\<close>

definition primary_answered :: "network \<Rightarrow> bool" where
  "primary_answered net =
     (case net Primary (retries_made net) of
        Resolved d \<Rightarrow> (if nullish d then False else True)
      | Rejected _ \<Rightarrow> False)"

text \<open>
  A body without text content: it is there, but \<^verbatim>\<open>candidates\<close>, its first element,
  that element's \<^verbatim>\<open>content\<close>, its \<^verbatim>\<open>parts\<close>, their first element or its \<^verbatim>\<open>text\<close> is
  missing (or the text is empty).
\<close>

definition missing_text :: "jsval \<Rightarrow> bool" where
  "missing_text d =
     (let candidates = get_field ''candidates'' d;
          candidate = get_first candidates;
          content = get_field ''content'' candidate;
          parts = get_field ''parts'' content;
          part = get_first parts;
          text = get_field ''text'' part
      in \<not> nullish d \<and>
         (nullish candidates \<or> nullish candidate \<or> nullish content \<or> nullish parts
          \<or> nullish part \<or> \<not> truthy text))"

text \<open>A weight that is not a number, or a finite double.\<close>

definition finite_weight :: "weight \<Rightarrow> bool" where
  "finite_weight w = (case w of Number d \<Rightarrow> is_double d | NaN \<Rightarrow> True | SourceText \<Rightarrow> True)"

text \<open>
  A sequence of requests of one client, each given by its number and the time of its
  lookup, taken up to the point where the handler waits or returns.
\<close>

definition after_requests :: "(nat \<times> int) list \<Rightarrow> request \<Rightarrow> server_state \<Rightarrow> server_state" where
  "after_requests rs req st = fold (\<lambda>(rid, now) s. fst (recommend_start s rid req now)) rs st"

text \<open>Concrete data for the examples.\<close>

definition empty_state :: server_state where
  "empty_state = \<lparr>users = Map.empty, responseCache = Map.empty, pendingRequests = Map.empty\<rparr>"

definition two_sum_request :: request where
  "two_sum_request =
     \<lparr>userId = Some ''u1'', platform = Some ''LeetCode'', activity_type = Some ''practice'',
      topic = Some ''arrays'', difficulty = Some ''Easy'', description = Some ''Two Sum''\<rparr>"

definition idle_request :: request where
  "idle_request =
     \<lparr>userId = Some ''u1'', platform = Some ''Coursera'', activity_type = None,
      topic = None, difficulty = None, description = None\<rparr>"

definition gemini_body :: "string \<Rightarrow> jsval" where
  "gemini_body t =
     JObj [(''candidates'',
            JArr [JObj [(''content'', JObj [(''parts'', JArr [JObj [(''text'', JStr t)]])])]])]"

definition example_candidates :: "jsval list" where
  "example_candidates =
     map (\<lambda>t. JObj [(''title'', JStr t)]) [''p1'', ''p2'', ''p3'', ''p4'', ''p5'', ''p6'']"

text \<open>
  Three environments: every model call is refused (HTTP 500, then a rejected
  fallback call), the adapter itself throws, and the primary endpoint answers with a
  well-formed object.
\<close>

definition models_down :: "request env" where
  "models_down =
     \<lparr>network = (\<lambda>url i. Rejected (if url = Primary then Some 500 else None)),
      JSON_parse = (\<lambda>s. None),
      Array_join = (\<lambda>xs sep. []),
      fetchLeetCodeCandidates = (\<lambda>t. Inr example_candidates),
      other_platforms = (\<lambda>req key now cache. ([], cache, Inr (Recommendations [])))\<rparr>"

definition adapter_down :: "request env" where
  "adapter_down =
     \<lparr>network = (\<lambda>url i. Rejected None),
      JSON_parse = (\<lambda>s. None),
      Array_join = (\<lambda>xs sep. []),
      fetchLeetCodeCandidates = (\<lambda>t. Inl AdapterError),
      other_platforms = (\<lambda>req key now cache. ([], cache, Inr (Recommendations [])))\<rparr>"

definition models_up :: "request env" where
  "models_up =
     \<lparr>network = (\<lambda>url i. Resolved (gemini_body ''{}'')),
      JSON_parse =
        (\<lambda>s. Some (JObj [(''similar_problems'', JArr [JObj [(''title'', JStr ''3Sum'')]]),
                         (''hints'', JArr [JStr ''sort first'']),
                         (''solution_outline'', JStr ''two pointers'')])),
      Array_join = (\<lambda>xs sep. ''sort first''),
      fetchLeetCodeCandidates = (\<lambda>t. Inr example_candidates),
      other_platforms = (\<lambda>req key now cache. ([], cache, Inr (Recommendations [])))\<rparr>"

definition flaky_network :: network where
  "flaky_network url i =
     (if url = Primary then (if i < 2 then Rejected (Some 429) else Rejected (Some 500))
      else Rejected None)"

definition empty_body_network :: network where
  "empty_body_network url i = Resolved (JObj [])"

definition example_normalized :: result where
  "example_normalized =
     Recommendations
       [JObj [(''title'', JStr ''3Sum'')],
        JObj [(''title'', JStr ([CHR 0xF0, CHR 0x9F, CHR 0x92, CHR 0xA1] @ '' AI Hints'')),
              (''description'', JStr ''sort first''),
              (''url'', JStr ''#'')],
        JObj [(''title'', JStr ([CHR 0xF0, CHR 0x9F, CHR 0xA7, CHR 0xA0] @ '' Solution Strategy'')),
              (''description'', JStr ''two pointers''),
              (''url'', JStr ''#'')]]"

text \<open>
  The server after the first request of user \<^verbatim>\<open>u1\<close>, once that request has been
  answered.
\<close>

definition returning_user_state :: server_state where
  "returning_user_state = fst (recommend models_down empty_state 1 two_sum_request 0 1)"

chapter \<open>Lemmas\<close>

section \<open>Substring test\<close>

text \<open>
  \<open>str_includes\<close> is the contiguous-sublist relation of the list library.
\<close>

lemma sublist_str_includes: "str_includes s sub \<longleftrightarrow> sublist sub s"
  by (induction s) (auto simp: sublist_Cons_right)

section \<open>Bit length and rounding\<close>

lemma bitlen_zero: "bitlen 0 = 0"
  by (simp add: bitlen.simps)

lemma bitlen_pos: "0 < n \<Longrightarrow> bitlen n = Suc (bitlen (n div 2))"
  by (subst bitlen.simps) simp

lemma bitlen_bounds: "0 < n \<Longrightarrow> 2 ^ (bitlen n - 1) \<le> n \<and> n < 2 ^ bitlen n"
proof (induction n rule: bitlen.induct)
  case (1 n)
  show ?case
  proof (cases "n div 2 = 0")
    case True
    with "1.prems" have "n = 1" by (simp add: div_eq_0_iff) 
    then show ?thesis by (simp add: bitlen_pos bitlen_zero)
  next
    case False
    then have pos: "0 < n div 2" by simp
    from "1.IH" "1.prems" pos
    have ih: "2 ^ (bitlen (n div 2) - 1) \<le> n div 2" "n div 2 < 2 ^ bitlen (n div 2)"
      by auto
    from pos have b1: "bitlen (n div 2) = Suc (bitlen (n div 2) - 1)"
      by (simp add: bitlen_pos)
    have "2 ^ bitlen (n div 2) = 2 * 2 ^ (bitlen (n div 2) - 1)"
      by (subst b1) simp
    also have "\<dots> \<le> 2 * (n div 2)" using ih(1) by simp
    also have "\<dots> \<le> n" by simp
    finally have lo: "2 ^ bitlen (n div 2) \<le> n" .
    from ih(2) have hi: "n < 2 * 2 ^ bitlen (n div 2)" by linarith
    from lo hi "1.prems" show ?thesis by (simp add: bitlen_pos)
  qed
qed

lemma bitlen_le_iff: "bitlen n \<le> k \<longleftrightarrow> n < 2 ^ k"
proof (cases "n = 0")
  case True
  then show ?thesis by (simp add: bitlen_zero)
next
  case False
  then have b: "2 ^ (bitlen n - 1) \<le> n" "n < 2 ^ bitlen n"
    using bitlen_bounds [of n] by auto
  show ?thesis
  proof
    assume "bitlen n \<le> k"
    then have "(2::nat) ^ bitlen n \<le> 2 ^ k" by (simp add: power_increasing)
    with b(2) show "n < 2 ^ k" by linarith
  next
    assume "n < 2 ^ k"
    with b(1) have "(2::nat) ^ (bitlen n - 1) < 2 ^ k" by linarith
    then have "bitlen n - 1 < k" by (simp add: power_strict_increasing_iff)
    then show "bitlen n \<le> k" by linarith
  qed
qed

lemma bitlen_gt_iff: "k < bitlen n \<longleftrightarrow> 2 ^ k \<le> n"
  using bitlen_le_iff [of n k] by linarith

lemma bitlen_eqI: "2 ^ k \<le> n \<Longrightarrow> n < 2 ^ Suc k \<Longrightarrow> bitlen n = Suc k"
  using bitlen_le_iff [of n "Suc k"] bitlen_gt_iff [of k n] by linarith

lemma bitlen_mult_pow2: "0 < n \<Longrightarrow> bitlen (n * 2 ^ t) = bitlen n + t"
proof -
  assume pos: "0 < n"
  then obtain b where b: "bitlen n = Suc b"
    by (auto simp: bitlen_pos)
  from pos have bd: "2 ^ b \<le> n" "n < 2 ^ Suc b"
    using bitlen_bounds [of n] b by auto
  have "2 ^ (b + t) \<le> n * 2 ^ t"
    using bd(1) by (simp add: power_add)
  moreover have "n * 2 ^ t < 2 ^ Suc (b + t)"
    using bd(2) by (simp add: power_add)
  ultimately have "bitlen (n * 2 ^ t) = Suc (b + t)"
    by (rule bitlen_eqI)
  with b show ?thesis by simp
qed

lemma rhe_cases:
  "round_half_even num s = num div 2 ^ s \<or> round_half_even num s = num div 2 ^ s + 1"
  by (simp add: round_half_even_def Let_def)

lemma rhe_ge: "num div 2 ^ s \<le> round_half_even num s"
  using rhe_cases [of num s] by linarith

lemma rhe_le:
  assumes "num \<le> m * 2 ^ s"
  shows "round_half_even num s \<le> m"
proof -
  define P :: nat where "P = 2 ^ s"
  define q where "q = num div P"
  define r where "r = num mod P"
  have qr: "q * P + r = num" and rP: "r < P"
    by (simp_all add: q_def r_def P_def div_mult_mod_eq)
  have rhe: "round_half_even num s = q \<or> round_half_even num s = q + 1"
    using rhe_cases [of num s] by (simp add: q_def P_def)
  show ?thesis
  proof (cases "q < m")
    case True
    with rhe show ?thesis by linarith
  next
    case False
    then have "m \<le> q" by simp
    then have "m * P \<le> q * P" by (rule mult_le_mono1)
    moreover from assms have "num \<le> m * P" by (simp add: P_def)
    ultimately have "r = 0" using qr by linarith
    then have "round_half_even num s = q"
      by (simp add: round_half_even_def Let_def q_def r_def P_def)
    moreover have "q \<le> m"
    proof (rule ccontr)
      assume "\<not> q \<le> m"
      then have "Suc m \<le> q" by simp
      then have "Suc m * P \<le> q * P" by (rule mult_le_mono1)
      then have "m * P + P \<le> q * P" by simp
      moreover have "0 < P" by (simp add: P_def)
      moreover from assms have "num \<le> m * P" by (simp add: P_def)
      ultimately show False using qr by linarith
    qed
    ultimately show ?thesis by simp
  qed
qed

lemma rhe_pos:
  assumes "2 ^ s < 2 * num"
  shows "0 < round_half_even num s"
proof (cases "num div 2 ^ s = 0")
  case True
  then have "num mod 2 ^ s = num" by (simp add: div_eq_0_iff)
  with True assms show ?thesis by (simp add: round_half_even_def)
next
  case False
  with rhe_ge [of num s] show ?thesis by linarith
qed

lemma rhe_lt:
  assumes "2 * num + 2 ^ s < 2 * (m * 2 ^ s)"
  shows "round_half_even num s < m"
proof -
  define P :: nat where "P = 2 ^ s"
  define q where "q = num div P"
  define r where "r = num mod P"
  have qr: "q * P + r = num" and rP: "r < P"
    by (simp_all add: q_def r_def P_def div_mult_mod_eq)
  have rhe: "round_half_even num s = q \<or> round_half_even num s = q + 1"
    using rhe_cases [of num s] by (simp add: q_def P_def)
  from assms have a: "2 * num + P < 2 * (m * P)" by (simp add: P_def)
  show ?thesis
  proof (cases "Suc q < m")
    case True
    with rhe show ?thesis by linarith
  next
    case False
    then have "m \<le> Suc q" by simp
    then have "m * P \<le> Suc q * P" by (rule mult_le_mono1)
    then have "m * P \<le> q * P + P" by simp
    with a qr have "2 * r < P" by linarith
    then have "round_half_even num s = q"
      by (simp add: round_half_even_def Let_def q_def r_def P_def)
    moreover have "q < m"
    proof (rule ccontr)
      assume "\<not> q < m"
      then have "m \<le> q" by simp
      then have "m * P \<le> q * P" by (rule mult_le_mono1)
      with a qr show False by linarith
    qed
    ultimately show ?thesis by simp
  qed
qed

lemma rhe_gt:
  assumes "2 * (m * 2 ^ s) < 2 * num + 2 ^ s"
  shows "m \<le> round_half_even num s"
proof -
  define P :: nat where "P = 2 ^ s"
  define q where "q = num div P"
  define r where "r = num mod P"
  have qr: "q * P + r = num" and rP: "r < P"
    by (simp_all add: q_def r_def P_def div_mult_mod_eq)
  have ge: "q \<le> round_half_even num s"
    using rhe_ge [of num s] by (simp add: q_def P_def)
  from assms have a: "2 * (m * P) < 2 * num + P" by (simp add: P_def)
  show ?thesis
  proof (cases "m \<le> q")
    case True
    with ge show ?thesis by linarith
  next
    case False
    then have "Suc q \<le> m" by simp
    then have "Suc q * P \<le> m * P" by (rule mult_le_mono1)
    then have le: "q * P + P \<le> m * P" by simp
    with a qr have "P < 2 * r" by linarith
    then have "round_half_even num s = q + 1"
      by (simp add: round_half_even_def Let_def q_def r_def P_def)
    moreover have "m \<le> q + 1"
    proof (rule ccontr)
      assume "\<not> m \<le> q + 1"
      then have "Suc (Suc q) \<le> m" by simp
      then have "Suc (Suc q) * P \<le> m * P" by (rule mult_le_mono1)
      then have "q * P + P + P \<le> m * P" by simp
      with a qr rP show False by linarith
    qed
    ultimately show ?thesis by simp
  qed
qed

text \<open>
  Rounding is to the nearest: the result is off by at most half a unit of the last
  digit kept.
\<close>

lemma rhe_nearest:
  "2 * (round_half_even num s * 2 ^ s) \<le> 2 * num + 2 ^ s \<and>
   2 * num \<le> 2 * (round_half_even num s * 2 ^ s) + 2 ^ s"
proof -
  define q where "q = num div 2 ^ s"
  define r where "r = num mod 2 ^ s"
  define P :: nat where "P = 2 ^ s"
  have num: "num = q * P + r"
    unfolding q_def r_def P_def by (simp add: div_mult_mod_eq)
  have r: "r < P"
    unfolding r_def P_def by simp
  have rhe: "round_half_even num s =
      (if 2 * r < P then q else if 2 * r > P then q + 1 else if even q then q else q + 1)"
    by (simp add: round_half_even_def q_def r_def P_def Let_def)
  define v where "v = round_half_even num s"
  from rhe have "(2 * r \<le> P \<and> v = q) \<or> (P \<le> 2 * r \<and> v = q + 1)"
    by (auto simp: v_def)
  then have "2 * (v * P) \<le> 2 * (q * P + r) + P \<and> 2 * (q * P + r) \<le> 2 * (v * P) + P"
    using r by (auto simp: algebra_simps)
  also have "q * P + r = num"
    by (simp add: num)
  finally show ?thesis
    unfolding v_def P_def .
qed

section \<open>Arithmetic of the decay factor\<close>

lemma DECAY_bounds: "2 ^ 52 < DECAY" "DECAY < 2 ^ 53"
  by (simp_all add: DECAY_def)

lemma DECAY_le: "DECAY \<le> 2 ^ 53"
  by (simp add: DECAY_def)

lemma decay_unfold:
  "decay w = round_half_even (w * DECAY) (max (bitlen (w * DECAY) - 53) 53)
               * 2 ^ (max (bitlen (w * DECAY) - 53) 53 - 53)"
  by (simp add: decay_def round_double_def Let_def)

lemma bitlen_product: "bitlen (w * DECAY) \<le> bitlen w + 53"
proof (cases "w = 0")
  case True
  then show ?thesis by (simp add: bitlen_zero)
next
  case False
  then have "w < 2 ^ bitlen w"
    using bitlen_bounds [of w] by simp
  then have "w * DECAY < 2 ^ bitlen w * 2 ^ 53"
    using DECAY_bounds(2) by (rule mult_strict_mono) simp_all
  then show ?thesis
    by (simp add: bitlen_le_iff power_add)
qed

lemma decay_form:
  assumes pos: "0 < w" and dbl: "is_double w"
  obtains m t where "w = m * 2 ^ t" and "0 < m" and "t = 0 \<or> 2 ^ 52 \<le> m"
    and "decay w = round_half_even (m * 2 ^ t * DECAY) (t + 53) * 2 ^ t"
proof -
  define L where "L = bitlen (w * DECAY)"
  define t where "t = L - 106"
  have s: "max (L - 53) 53 = t + 53"
    by (simp add: t_def max_def)
  have "L \<le> bitlen w + 53"
    unfolding L_def by (rule bitlen_product)
  then have "t \<le> bitlen w - 53"
    by (simp add: t_def)
  moreover from dbl have "2 ^ (bitlen w - 53) dvd w"
    by (simp add: is_double_def)
  ultimately have "2 ^ t dvd w"
    by (rule power_le_dvd [rotated])
  then obtain m where m: "w = m * 2 ^ t"
    by (auto simp: dvd_def mult.commute)
  with pos have mpos: "0 < m"
    by (cases "m = 0") simp_all
  have big: "t = 0 \<or> 2 ^ 52 \<le> m"
  proof (cases "t = 0")
    case True
    then show ?thesis by simp
  next
    case False
    then have L: "L = t + 106"
      by (simp add: t_def)
    have "\<not> m < 2 ^ 52"
    proof
      assume "m < 2 ^ 52"
      then have "m * 2 ^ t < 2 ^ 52 * 2 ^ t"
        by simp
      then have "m * 2 ^ t * DECAY < (2 ^ 52 * 2 ^ t) * 2 ^ 53"
        using DECAY_bounds(2) by (rule mult_strict_mono) simp_all
      also have "(2 ^ 52 * 2 ^ t) * 2 ^ 53 = (2::nat) ^ (t + 105)"
        by (simp add: power_add)
      finally have "bitlen (w * DECAY) \<le> t + 105"
        by (simp add: bitlen_le_iff m)
      with L show False
        by (simp add: L_def)
    qed
    then show ?thesis by simp
  qed
  have "decay w = round_half_even (m * 2 ^ t * DECAY) (t + 53) * 2 ^ t"
    unfolding decay_unfold L_def [symmetric] s by (simp add: m)
  with m mpos big show ?thesis
    by (rule that)
qed

lemma decay_zero: "decay 0 = 0"
  by (simp add: decay_unfold bitlen_zero round_half_even_def)

lemma decay_le:
  assumes "is_double w"
  shows "decay w \<le> w"
proof (cases "w = 0")
  case True
  then show ?thesis by (simp add: decay_zero)
next
  case False
  then have "0 < w" by simp
  from this assms obtain m t where w: "w = m * 2 ^ t"
    and d: "decay w = round_half_even (m * 2 ^ t * DECAY) (t + 53) * 2 ^ t"
    by (rule decay_form)
  have "m * 2 ^ t * DECAY \<le> m * 2 ^ t * 2 ^ 53"
    by (rule mult_le_mono2) (rule DECAY_le)
  then have "m * 2 ^ t * DECAY \<le> m * 2 ^ (t + 53)"
    by (simp add: power_add mult.assoc)
  then have "round_half_even (m * 2 ^ t * DECAY) (t + 53) \<le> m"
    by (rule rhe_le)
  then have "round_half_even (m * 2 ^ t * DECAY) (t + 53) * 2 ^ t \<le> m * 2 ^ t"
    by (rule mult_le_mono1)
  with w d show ?thesis by simp
qed

lemma decay_pos:
  assumes "0 < w"
  shows "0 < decay w"
proof -
  define num where "num = w * DECAY"
  define s where "s = max (bitlen num - 53) 53"
  from assms have "DECAY \<le> w * DECAY"
    by simp
  with DECAY_bounds(1) have num: "2 ^ 52 < num"
    unfolding num_def by linarith
  then have "2 ^ (bitlen num - 1) \<le> num"
    using bitlen_bounds [of num] by simp
  have "2 ^ s < 2 * num"
  proof (cases "bitlen num - 53 \<le> 53")
    case True
    then have "s = 53" by (simp add: s_def max_def)
    with num show ?thesis by simp
  next
    case False
    then have s: "s = bitlen num - 53" by (simp add: s_def max_def)
    with False have "s < bitlen num - 1" by simp
    then have "(2::nat) ^ s < 2 ^ (bitlen num - 1)"
      by (rule power_strict_increasing) simp
    with \<open>2 ^ (bitlen num - 1) \<le> num\<close> show ?thesis by linarith
  qed
  then have "0 < round_half_even num s"
    by (rule rhe_pos)
  then show ?thesis
    by (simp add: decay_unfold num_def s_def)
qed

lemma decay_less:
  assumes "is_double w" and "25 \<le> w"
  shows "decay w < w"
proof -
  from assms have "0 < w" by simp
  from this assms(1) obtain m t where w: "w = m * 2 ^ t"
    and big: "t = 0 \<or> 2 ^ 52 \<le> m"
    and d: "decay w = round_half_even (m * 2 ^ t * DECAY) (t + 53) * 2 ^ t"
    by (rule decay_form)
  from big w assms(2) have m: "25 \<le> m"
    by auto
  then have "2 * (m * DECAY) + 2 ^ 53 < 2 * (m * 2 ^ 53)"
    by (simp add: DECAY_def)
  then have "(2 * (m * DECAY) + 2 ^ 53) * 2 ^ t < (2 * (m * 2 ^ 53)) * 2 ^ t"
    by (simp only: mult_less_cancel2) simp
  then have "2 * (m * 2 ^ t * DECAY) + 2 ^ (t + 53) < 2 * (m * 2 ^ (t + 53))"
    by (simp add: power_add algebra_simps)
  then have "round_half_even (m * 2 ^ t * DECAY) (t + 53) < m"
    by (rule rhe_lt)
  then have "round_half_even (m * 2 ^ t * DECAY) (t + 53) * 2 ^ t < m * 2 ^ t"
    by simp
  with w d show ?thesis by simp
qed

lemma decay_fixed:
  assumes "0 < w" and "w \<le> 24"
  shows "decay w = w"
proof -
  from assms(2) have "w * DECAY < 2 ^ 106"
    by (simp add: DECAY_def)
  then have "bitlen (w * DECAY) \<le> 106"
    by (simp add: bitlen_le_iff)
  then have s: "max (bitlen (w * DECAY) - 53) 53 = 53"
    by (simp add: max_def)
  have "w * DECAY \<le> w * 2 ^ 53"
    by (rule mult_le_mono2) (rule DECAY_le)
  then have le: "round_half_even (w * DECAY) 53 \<le> w"
    by (rule rhe_le)
  from assms(2) have "2 * (w * 2 ^ 53) < 2 * (w * DECAY) + 2 ^ 53"
    by (simp add: DECAY_def)
  then have ge: "w \<le> round_half_even (w * DECAY) 53"
    by (rule rhe_gt)
  from le ge show ?thesis
    by (simp add: decay_unfold s)
qed

lemma rhe_bound:
  assumes "bitlen num \<le> s + 53"
  shows "round_half_even num s \<le> 2 ^ 53"
proof -
  from assms have "num < 2 ^ (s + 53)"
    by (simp add: bitlen_le_iff)
  then have "num < 2 ^ 53 * 2 ^ s"
    by (simp add: power_add mult.commute)
  then have "num div 2 ^ s < 2 ^ 53"
    by (rule less_mult_imp_div_less)
  with rhe_cases [of num s] show ?thesis
    by linarith
qed

lemma is_double_mult_pow2:
  assumes "r \<le> 2 ^ 53" and "r * 2 ^ u < 2 ^ 2098"
  shows "is_double (r * 2 ^ u)"
proof (cases "r = 0")
  case True
  then show ?thesis by (simp add: is_double_def bitlen_zero)
next
  case False
  then have len: "bitlen (r * 2 ^ u) = bitlen r + u"
    by (simp add: bitlen_mult_pow2)
  show ?thesis
  proof (cases "r = 2 ^ 53")
    case True
    have "bitlen r = Suc 53"
      unfolding True by (rule bitlen_eqI) simp_all
    with len have "bitlen (r * 2 ^ u) - 53 = Suc u"
      by simp
    moreover have "(2::nat) ^ Suc u dvd 2 ^ (53 + u)"
      by (rule le_imp_power_dvd) simp
    then have "(2::nat) ^ Suc u dvd 2 ^ 53 * 2 ^ u"
      by (simp only: power_add)
    ultimately show ?thesis
      using assms(2) by (simp add: is_double_def True del: power_Suc)
  next
    case False
    with assms(1) have "r < 2 ^ 53" by simp
    then have "bitlen r \<le> 53"
      by (simp add: bitlen_le_iff)
    with len have "bitlen (r * 2 ^ u) - 53 \<le> u"
      by simp
    then have "(2::nat) ^ (bitlen (r * 2 ^ u) - 53) dvd 2 ^ u"
      by (rule le_imp_power_dvd)
    then have "2 ^ (bitlen (r * 2 ^ u) - 53) dvd r * 2 ^ u"
      by (rule dvd_mult)
    with assms(2) show ?thesis
      by (simp add: is_double_def)
  qed
qed

lemma round_double_is_double:
  assumes "round_double num d < 2 ^ 2098"
  shows "is_double (round_double num d)"
proof -
  define s where "s = max (bitlen num - 53) d"
  have "bitlen num \<le> s + 53"
    unfolding s_def by linarith
  then have "round_half_even num s \<le> 2 ^ 53"
    by (rule rhe_bound)
  moreover have rd: "round_double num d = round_half_even num s * 2 ^ (s - d)"
    by (simp add: round_double_def s_def Let_def)
  ultimately show ?thesis
    using assms is_double_mult_pow2 [of "round_half_even num s" "s - d"] by simp
qed

lemma decay_is_double:
  assumes "is_double w"
  shows "is_double (decay w)"
proof -
  from assms have "decay w \<le> w"
    by (rule decay_le)
  moreover from assms have "w < 2 ^ 2098"
    by (simp add: is_double_def)
  ultimately have "round_double (w * DECAY) 53 < 2 ^ 2098"
    by (simp add: decay_def)
  then show ?thesis
    unfolding decay_def by (rule round_double_is_double)
qed

lemma double_max:
  assumes "is_double w"
  shows "w + 2 ^ 2045 \<le> 2 ^ 2098"
proof (cases "w < 2 ^ 2097")
  case True
  then show ?thesis by simp
next
  case False
  then have "2 ^ 2097 \<le> w" by simp
  moreover from assms have lt: "w < 2 ^ 2098"
    by (simp add: is_double_def)
  ultimately have "bitlen w = Suc 2097"
    by (intro bitlen_eqI) simp_all
  with assms have "2 ^ 2045 dvd w"
    by (simp add: is_double_def)
  then obtain k where k: "w = k * 2 ^ 2045"
    by (auto simp: dvd_def mult.commute)
  have "k < 2 ^ 53"
  proof (rule ccontr)
    assume "\<not> k < 2 ^ 53"
    then have "2 ^ 53 \<le> k" by simp
    then have "2 ^ 53 * 2 ^ 2045 \<le> k * 2 ^ 2045"
      by (rule mult_le_mono1)
    with lt k show False by simp
  qed
  then have "Suc k \<le> 2 ^ 53" by simp
  then have "Suc k * 2 ^ 2045 \<le> 2 ^ 53 * 2 ^ 2045"
    by (rule mult_le_mono1)
  with k show ?thesis by simp
qed

lemma increment_unfold:
  "increment w = round_half_even (w + ONE) (bitlen (w + ONE) - 53) * 2 ^ (bitlen (w + ONE) - 53)"
  by (simp add: increment_def round_double_def Let_def)

lemma increment_is_double:
  assumes "is_double w"
  shows "is_double (increment w)"
proof -
  define s where "s = bitlen (w + ONE) - 53"
  have inc: "increment w = round_half_even (w + ONE) s * 2 ^ s"
    by (simp add: increment_unfold s_def)
  from assms have max: "w + 2 ^ 2045 \<le> 2 ^ 2098"
    by (rule double_max)
  then have "w + ONE < 2 ^ 2098"
    by (simp add: ONE_def)
  then have L: "bitlen (w + ONE) \<le> 2098"
    by (simp add: bitlen_le_iff)
  have "2 ^ 1074 \<le> w + ONE"
    by (simp add: ONE_def)
  then have "1074 < bitlen (w + ONE)"
    by (simp add: bitlen_gt_iff)
  then have len: "bitlen (w + ONE) = s + 53"
    by (simp add: s_def)
  then have r53: "round_half_even (w + ONE) s \<le> 2 ^ 53"
    by (intro rhe_bound) simp
  have "round_half_even (w + ONE) s * 2 ^ s < 2 ^ 2098"
  proof (cases "s = 2045")
    case True
    from max have "2 * (w + ONE) + 2 ^ 2045 < 2 * (2 ^ 53 * 2 ^ 2045)"
      by (simp add: ONE_def)
    then have "round_half_even (w + ONE) 2045 < 2 ^ 53"
      by (rule rhe_lt)
    then have "round_half_even (w + ONE) 2045 * 2 ^ 2045 < 2 ^ 53 * 2 ^ 2045"
      by simp
    with True show ?thesis by simp
  next
    case False
    with L len have "s \<le> 2044" by simp
    then have "(2::nat) ^ s \<le> 2 ^ 2044"
      by (rule power_increasing) simp
    with r53 have "round_half_even (w + ONE) s * 2 ^ s \<le> 2 ^ 53 * 2 ^ 2044"
      by (rule mult_le_mono)
    then show ?thesis by simp
  qed
  then have "round_double (w + ONE) 0 < 2 ^ 2098"
    by (simp add: inc [symmetric] increment_def)
  then show ?thesis
    unfolding increment_def by (rule round_double_is_double)
qed

lemma increment_zero: "increment 0 = ONE"
proof -
  have "bitlen ONE = Suc 1074"
    unfolding ONE_def by (rule bitlen_eqI) simp_all
  then show ?thesis
    by (simp add: increment_unfold round_half_even_def ONE_def)
qed

lemma decay_one: "decay ONE = DECAY * 2 ^ 1021"
proof -
  have bD: "bitlen DECAY = Suc 52"
    by (rule bitlen_eqI) (simp_all add: DECAY_def)
  have "bitlen (ONE * DECAY) = bitlen (DECAY * 2 ^ 1074)"
    by (simp only: ONE_def mult.commute)
  also have "\<dots> = bitlen DECAY + 1074"
    by (rule bitlen_mult_pow2) (simp add: DECAY_def)
  also have "\<dots> = 1127"
    using bD by simp
  finally have b: "bitlen (ONE * DECAY) = 1127" .
  show ?thesis
    unfolding decay_unfold b by (simp add: round_half_even_def ONE_def)
qed

lemma decay_factor: "\<bar>(49 / 50 :: rat) - of_nat DECAY / 2 ^ 53\<bar> < 1 / 2 ^ 54"
  by (simp add: DECAY_def)

text \<open>
  \<open>decay w\<close> is the product of \<open>w\<close> and the double \<^verbatim>\<open>0.98\<close>, and \<open>increment w\<close> is the sum of
  \<open>w\<close> and \<open>1\<close>, each within half a unit of the last digit kept (\<open>decay w * 2 ^ 53\<close> against
  the exact \<open>w * DECAY\<close>, both in units of \<open>2^-1127\<close>).
\<close>

lemma decay_nearest:
  "(let ulp = 2 ^ max (bitlen (w * DECAY) - 53) 53
    in 2 * (decay w * 2 ^ 53) \<le> 2 * (w * DECAY) + ulp \<and>
       2 * (w * DECAY) \<le> 2 * (decay w * 2 ^ 53) + ulp)"
proof -
  define s where "s = max (bitlen (w * DECAY) - 53) 53"
  have "s = (s - 53) + 53"
    by (simp add: s_def)
  then have "(2::nat) ^ s = 2 ^ (s - 53) * 2 ^ 53"
    by (metis power_add)
  then have "decay w * 2 ^ 53 = round_half_even (w * DECAY) s * 2 ^ s"
    by (simp add: decay_def round_double_def s_def [symmetric] Let_def)
  with rhe_nearest [of "w * DECAY" s] show ?thesis
    by (simp add: s_def [symmetric] Let_def)
qed

lemma increment_nearest:
  "(let ulp = 2 ^ (bitlen (w + ONE) - 53)
    in 2 * increment w \<le> 2 * (w + ONE) + ulp \<and>
       2 * (w + ONE) \<le> 2 * increment w + ulp)"
proof -
  define s where "s = bitlen (w + ONE) - 53"
  have "increment w = round_half_even (w + ONE) s * 2 ^ s"
    by (simp add: increment_def round_double_def s_def [symmetric] Let_def)
  with rhe_nearest [of "w + ONE" s] show ?thesis
    by (simp add: s_def [symmetric] Let_def)
qed

section \<open>The generation gateway\<close>

lemma callGeminiWithRetry_unfold:
  "callGeminiWithRetry net url i r =
     (let k = length (takeWhile (rate_limited net url) [i..<i + r])
      in (attempts url k,
          case net url (i + k) of
            Resolved d \<Rightarrow> Inr d
          | Rejected st \<Rightarrow> Inl (AxiosError st)))"
proof (induction r arbitrary: i)
  case 0
  show ?case
    by (subst callGeminiWithRetry.simps) (simp add: attempts_def split: reply.split)
next
  case (Suc r)
  have upt: "[i..<i + Suc r] = i # [Suc i..<Suc i + r]"
    by (simp add: upt_conv_Cons)
  show ?case
  proof (cases "net url i")
    case (Resolved d)
    then have "\<not> rate_limited net url i"
      by (simp add: rate_limited_def)
    with Resolved show ?thesis
      by (subst callGeminiWithRetry.simps, subst upt) (simp add: attempts_def)
  next
    case (Rejected st)
    show ?thesis
    proof (cases "st = Some 429")
      case True
      with Rejected have rl: "rate_limited net url i"
        by (simp add: rate_limited_def)
      have step: "callGeminiWithRetry net url i (Suc r) =
          (let (tr, res) = callGeminiWithRetry net url (Suc i) r
           in (Post url # Delay 2000 # tr, res))"
        using Rejected True by (subst callGeminiWithRetry.simps) simp
      show ?thesis
        unfolding step Suc.IH [of "Suc i"] upt
        using rl by (simp add: attempts_def Let_def)
    next
      case False
      with Rejected have "\<not> rate_limited net url i"
        by (simp add: rate_limited_def)
      with Rejected False show ?thesis
        by (subst callGeminiWithRetry.simps, subst upt) (simp add: attempts_def)
    qed
  qed
qed

lemma attempts_no_fallback: "Post Fallback \<notin> set (attempts Primary k)"
  by (induction k) (simp_all add: attempts_def)

lemma retries_made_le: "retries_made net \<le> 3"
  using length_takeWhile_le [of "rate_limited net Primary" "[0..<3]"]
  by (simp add: retries_made_def)

lemma retries_made_429:
  assumes "j < retries_made net"
  shows "net Primary j = Rejected (Some 429)"
proof -
  let ?P = "rate_limited net Primary"
  from assms have j: "j < length (takeWhile ?P [0..<3])"
    by (simp add: retries_made_def)
  then have "takeWhile ?P [0..<3] ! j \<in> set (takeWhile ?P [0..<3])"
    by (rule nth_mem)
  then have "?P (takeWhile ?P [0..<3] ! j)"
    by (rule set_takeWhileD [THEN conjunct2])
  moreover have "takeWhile ?P [0..<3] ! j = [0..<3] ! j"
    using j by (rule takeWhile_nth)
  moreover from j retries_made_le [of net] have "j < 3"
    by (simp add: retries_made_def)
  ultimately show ?thesis
    by (simp add: rate_limited_def)
qed

lemma retries_made_last:
  assumes "retries_made net < 3"
  shows "net Primary (retries_made net) \<noteq> Rejected (Some 429)"
proof -
  let ?P = "rate_limited net Primary"
  from assms have "length (takeWhile ?P [0..<3]) < length [0..<3]"
    by (simp add: retries_made_def)
  then have "\<not> ?P ([0..<3] ! length (takeWhile ?P [0..<3]))"
    by (rule nth_length_takeWhile)
  with assms show ?thesis
    by (simp add: retries_made_def rate_limited_def)
qed

lemma generateWithAI_unfold:
  "generateWithAI net =
     (let tr = attempts Primary (retries_made net);
          fallback = (case net Fallback 0 of
                        Resolved d \<Rightarrow>
                          (case response_text d of Inr text \<Rightarrow> Inr text | Inl _ \<Rightarrow> Inr (JStr ''[]''))
                      | Rejected _ \<Rightarrow> Inr (JStr ''[]''))
      in case net Primary (retries_made net) of
           Resolved d \<Rightarrow>
             (case response_text d of
                Inr text \<Rightarrow> (tr, Inr text)
              | Inl _ \<Rightarrow> (tr @ [Post Fallback], fallback))
         | Rejected _ \<Rightarrow> (tr @ [Post Fallback], fallback))"
  unfolding generateWithAI_def callGeminiWithRetry_unfold retries_made_def
  by (simp add: Let_def split: reply.split sum.split)

lemma count_attempts: "count_list (attempts Primary k) (Post Fallback) = 0"
  using attempts_no_fallback [of k] by (simp add: count_list_0_iff)

lemma retries_made_flaky: "retries_made flaky_network = 2"
  by (simp add: retries_made_def rate_limited_def flaky_network_def upt_rec)

lemma nullish_get_field: "nullish v \<Longrightarrow> get_field k v = JUndefined"
  by (cases v) simp_all

lemma nullish_get_first: "nullish v \<Longrightarrow> get_first v = JUndefined"
  by (cases v) simp_all

lemma opt_chain_get_field: "opt_chain (get_field k) v = get_field k v"
  by (simp add: opt_chain_def nullish_get_field)

lemma opt_chain_get_first: "opt_chain get_first v = get_first v"
  by (simp add: opt_chain_def nullish_get_first)

lemma response_text_unfold:
  "response_text d =
     (if nullish d then Inl TypeError
      else
        let text = get_field ''text'' (get_first (get_field ''parts'' (get_field ''content''
                      (get_first (get_field ''candidates'' d)))))
        in Inr (if truthy text then text else JStr ''[]''))"
  by (simp add: response_text_def opt_chain_get_field opt_chain_get_first Let_def)

lemma missing_text_response:
  assumes "missing_text d"
  shows "response_text d = Inr (JStr ''[]'')"
proof -
  let ?cands = "get_field ''candidates'' d"
  let ?cand = "get_first ?cands"
  let ?cont = "get_field ''content'' ?cand"
  let ?parts = "get_field ''parts'' ?cont"
  let ?part = "get_first ?parts"
  let ?text = "get_field ''text'' ?part"
  from assms have d: "\<not> nullish d"
    and m: "nullish ?cands \<or> nullish ?cand \<or> nullish ?cont \<or> nullish ?parts \<or> nullish ?part
          \<or> \<not> truthy ?text"
    unfolding missing_text_def Let_def by blast+
  have nf: "nullish (get_field k v)" if "nullish v" for k v
    using that by (simp add: nullish_get_field)
  have nl: "nullish (get_first v)" if "nullish v" for v
    using that by (simp add: nullish_get_first)
  from m have "nullish ?part \<or> \<not> truthy ?text"
    by (blast intro: nf nl)
  then have "\<not> truthy ?text"
    by (auto simp: nullish_get_field)
  with d show ?thesis
    by (simp add: response_text_unfold Let_def)
qed

lemma retries_made_empty_body: "retries_made empty_body_network = 0"
  by (simp add: retries_made_def rate_limited_def empty_body_network_def upt_rec)

lemma generateWithAI_trace:
  "fst (generateWithAI net) =
     (if primary_answered net then attempts Primary (retries_made net)
      else attempts Primary (retries_made net) @ [Post Fallback])"
  by (simp add: generateWithAI_unfold primary_answered_def response_text_def Let_def
        split: reply.split)

lemma generateWithAI_fallback_rejected:
  assumes "\<not> primary_answered net" and "rejected (net Fallback 0)"
  shows "snd (generateWithAI net) = Inr (JStr ''[]'')"
  using assms
  by (simp add: generateWithAI_unfold primary_answered_def rejected_def response_text_def
        Let_def split: reply.splits if_splits)

lemma generateWithAI_both_failed:
  assumes "Post Fallback \<in> set (fst (generateWithAI net))" and "rejected (net Fallback 0)"
  shows "snd (generateWithAI net) = Inr (JStr ''[]'')"
proof -
  from assms(1) have "\<not> primary_answered net"
    using attempts_no_fallback [of "retries_made net"]
    by (auto simp: generateWithAI_trace split: if_splits)
  then show ?thesis
    using assms(2) by (rule generateWithAI_fallback_rejected)
qed

section \<open>The problem-practice pipelines on concrete environments\<close>

lemma match_object_brackets: "match_object ''[]'' = None"
  by (simp add: match_object_def)

lemma ai_recommendations_trace: "fst (ai_recommendations e) = fst (generateWithAI (network e))"
  by (simp add: ai_recommendations_def rankAndGenerate_def split: prod.split)

lemma ai_recommendations_failed:
  assumes "\<not> primary_answered (network e)" and "rejected (network e Fallback 0)"
  shows "ai_recommendations e =
           (attempts Primary (retries_made (network e)) @ [Post Fallback], Inl InvalidJSON)"
proof -
  from assms have "snd (generateWithAI (network e)) = Inr (JStr ''[]'')"
    by (rule generateWithAI_fallback_rejected)
  moreover from assms(1)
  have "fst (generateWithAI (network e)) =
      attempts Primary (retries_made (network e)) @ [Post Fallback]"
    by (simp add: generateWithAI_trace)
  ultimately have "generateWithAI (network e) =
      (attempts Primary (retries_made (network e)) @ [Post Fallback], Inr (JStr ''[]''))"
    by (simp add: prod_eq_iff)
  then show ?thesis
    by (simp add: ai_recommendations_def rankAndGenerate_def match_object_brackets)
qed

lemma all_rejected_not_answered:
  assumes "\<forall>j\<le>3. rejected (net Primary j)"
  shows "\<not> primary_answered net"
proof -
  from assms retries_made_le [of net] have "rejected (net Primary (retries_made net))"
    by simp
  then show ?thesis
    by (simp add: primary_answered_def rejected_def split: reply.splits)
qed

lemma requestPromise_falls_back:
  assumes plat: "platform req = Some ''LeetCode'' \<or> platform req = Some ''HackerRank''"
    and tp: "topic req = Some t" "t \<noteq> []"
    and ds: "description req = Some d" "d \<noteq> []"
    and fetch: "fetchLeetCodeCandidates e t = Inr candidates"
    and primary: "\<not> primary_answered (network e)"
    and fallback: "rejected (network e Fallback 0)"
  shows "fst (requestPromise e req now cache) =
           attempts Primary (retries_made (network e)) @ [Post Fallback]"
    and "snd (snd (requestPromise e req now cache)) = Inr (Recommendations (take 5 candidates))"
proof -
  note ai = ai_recommendations_failed [OF primary fallback]
  from plat show "fst (requestPromise e req now cache) =
           attempts Primary (retries_made (network e)) @ [Post Fallback]"
  proof
    assume "platform req = Some ''LeetCode''"
    then show ?thesis
      by (simp add: requestPromise_def leetcode_branch_def tp ds fetch ai Let_def)
  next
    assume "platform req = Some ''HackerRank''"
    then show ?thesis
      by (simp add: requestPromise_def hackerrank_branch_def tp ds fetch ai Let_def)
  qed
  from plat show "snd (snd (requestPromise e req now cache)) =
      Inr (Recommendations (take 5 candidates))"
  proof
    assume "platform req = Some ''LeetCode''"
    then show ?thesis
      by (simp add: requestPromise_def leetcode_branch_def tp ds fetch ai Let_def)
  next
    assume "platform req = Some ''HackerRank''"
    then show ?thesis
      by (simp add: requestPromise_def hackerrank_branch_def tp ds fetch ai Let_def)
  qed
qed

lemma cacheKey_two_sum: "cacheKey two_sum_request = ''LeetCode-practice-arrays''"
  by (simp add: cacheKey_def template_def two_sum_request_def)

lemma toLowerCase_arrays: "toLowerCase ''arrays'' = ''arrays''"
  by (simp add: toLowerCase_def toLowerCase_char_def)

lemma strip_none: "find (\<lambda>ws. prefix ws s) pats = None \<Longrightarrow> strip pats s = s"
  by (subst strip.simps) simp

lemma strip_some:
  "find (\<lambda>ws. prefix ws s) pats = Some ws \<Longrightarrow> ws \<noteq> [] \<Longrightarrow>
     strip pats s = strip pats (drop (length ws) s)"
  by (subst strip.simps) simp

lemma trim_arrays: "trim ''arrays'' = ''arrays''"
proof -
  have "strip white_space ''arrays'' = ''arrays''"
    by (rule strip_none) (simp add: white_space_def)
  moreover have "strip (map rev white_space) ''syarra'' = ''syarra''"
    by (rule strip_none) (simp add: white_space_def)
  ultimately show ?thesis
    by (simp add: trim_def)
qed

text \<open>A topic that consists of a no-break space (U+00A0) is blank.\<close>

lemma trim_no_break_space: "trim [CHR 0xC2, CHR 0xA0] = []"
proof -
  have "find (\<lambda>ws. prefix ws [CHR 0xC2, CHR 0xA0]) white_space = Some [CHR 0xC2, CHR 0xA0]"
    by (simp add: white_space_def)
  then have "strip white_space [CHR 0xC2, CHR 0xA0] = strip white_space []"
    by (simp add: strip_some)
  also have "\<dots> = []"
    by (rule strip_none) (simp add: white_space_def)
  finally have "strip white_space [CHR 0xC2, CHR 0xA0] = []" .
  moreover have "strip (map rev white_space) [] = []"
    by (rule strip_none) (simp add: white_space_def)
  ultimately show ?thesis
    by (simp add: trim_def)
qed

lemma reinforce_arrays: "reinforce (Some ''arrays'') [] = [(''arrays'', Number (increment 0))]"
  by (simp add: reinforce_def toLowerCase_arrays trim_arrays)

lemma request_fields:
  "userId two_sum_request = Some ''u1''" "topic two_sum_request = Some ''arrays''"
  "userId idle_request = Some ''u1''" "topic idle_request = None"
  by (simp_all add: two_sum_request_def idle_request_def)

lemma start_two_sum:
  "recommend_start empty_state rid two_sum_request now =
     (\<lparr>users = [''u1'' \<mapsto> WithProfile [(''arrays'', Number (increment 0))]],
       responseCache = Map.empty,
       pendingRequests = [''LeetCode-practice-arrays'' \<mapsto> rid]\<rparr>, Awaiting)"
proof -
  have found: "findOne empty_state (Some ''u1'') = None"
    by (simp add: findOne_def empty_state_def)
  have mem: "profile_in_memory empty_state two_sum_request = [(''arrays'', Number (increment 0))]"
    by (simp add: profile_in_memory_def request_fields found load_or_create_def decay_all_def
          reinforce_arrays)
  show ?thesis
    unfolding recommend_start_def Let_def request_fields found mem
    by (simp add: save_def cacheKey_two_sum getCache_def empty_state_def)
qed

lemma retries_made_models_down: "retries_made (network models_down) = 0"
  by (simp add: retries_made_def rate_limited_def models_down_def upt_rec)

lemma generateWithAI_models_down:
  "generateWithAI (network models_down) = ([Post Primary, Post Fallback], Inr (JStr ''[]''))"
  by (simp add: generateWithAI_unfold retries_made_models_down attempts_def)
     (simp add: models_down_def)

lemma ai_recommendations_models_down:
  "ai_recommendations models_down = ([Post Primary, Post Fallback], Inl InvalidJSON)"
  by (simp add: ai_recommendations_def rankAndGenerate_def generateWithAI_models_down
        match_object_brackets)

lemma retries_made_models_up: "retries_made (network models_up) = 0"
  by (simp add: retries_made_def rate_limited_def models_up_def upt_rec)

lemma response_text_gemini_body: "t \<noteq> [] \<Longrightarrow> response_text (gemini_body t) = Inr (JStr t)"
  by (simp add: response_text_def gemini_body_def opt_chain_def)

lemma generateWithAI_models_up:
  "generateWithAI (network models_up) = ([Post Primary], Inr (JStr ''{}''))"
proof -
  have "network models_up Primary 0 = Resolved (gemini_body ''{}'')"
    by (simp add: models_up_def)
  then show ?thesis
    by (simp add: generateWithAI_unfold retries_made_models_up attempts_def
          response_text_gemini_body)
qed

lemma ai_recommendations_models_up:
  "ai_recommendations models_up = ([Post Primary], Inr example_normalized)"
proof -
  have m: "match_object ''{}'' = Some ''{}''"
    by (simp add: match_object_def)
  show ?thesis
    by (simp add: ai_recommendations_def rankAndGenerate_def generateWithAI_models_up m)
       (simp add: models_up_def normalized_result_def example_normalized_def)
qed

lemma requestPromise_models_down:
  "requestPromise models_down two_sum_request now cache =
     ([Post Primary, Post Fallback],
      setCache ''LeetCode-practice-arrays'' (Recommendations (take 5 example_candidates)) now cache,
      Inr (Recommendations (take 5 example_candidates)))"
proof -
  have "fetchLeetCodeCandidates models_down ''arrays'' = Inr example_candidates"
    by (simp add: models_down_def)
  then show ?thesis
    by (simp add: requestPromise_def leetcode_branch_def ai_recommendations_models_down
          two_sum_request_def cacheKey_def template_def Let_def)
qed

lemma recommend_models_down:
  "recommend models_down empty_state 1 two_sum_request 0 1 =
     (\<lparr>users = [''u1'' \<mapsto> WithProfile [(''arrays'', Number (increment 0))]],
       responseCache = setCache ''LeetCode-practice-arrays''
                         (Recommendations (take 5 example_candidates)) 1 Map.empty,
       pendingRequests = Map.empty\<rparr>,
      Some (Json (Recommendations (take 5 example_candidates))),
      [Post Primary, Post Fallback])"
  by (simp add: recommend_def start_two_sum recommend_finish_def requestPromise_models_down
        cacheKey_two_sum)

lemma cacheKey_two_sum_hr:
  "cacheKey (two_sum_request\<lparr>platform := Some ''HackerRank''\<rparr>) = ''HackerRank-practice-arrays''"
  by (simp add: cacheKey_def template_def two_sum_request_def)

lemma cacheKey_two_sum_lc:
  "cacheKey (two_sum_request\<lparr>platform := Some ''LeetCode''\<rparr>) = ''LeetCode-practice-arrays''"
  by (simp add: cacheKey_def template_def two_sum_request_def)

section \<open>Profiles\<close>

lemma increment_decay_one: "increment (decay ONE) = 8917127262193582 * 2 ^ 1022"
proof -
  have b: "bitlen (DECAY * 2 ^ 1021 + ONE) = Suc 1074"
    by (rule bitlen_eqI) (simp_all add: DECAY_def ONE_def)
  show ?thesis
    unfolding increment_unfold decay_one b
    by (simp add: round_half_even_def DECAY_def ONE_def)
qed

lemma decay_less_iff:
  assumes "is_double w" and "0 < w"
  shows "decay w < w \<longleftrightarrow> 25 \<le> w"
proof
  assume "decay w < w"
  show "25 \<le> w"
  proof (rule ccontr)
    assume "\<not> 25 \<le> w"
    with assms(2) have "decay w = w"
      by (intro decay_fixed) simp_all
    with \<open>decay w < w\<close> show False by simp
  qed
next
  assume "25 \<le> w"
  with assms(1) show "decay w < w"
    by (rule decay_less)
qed

lemma is_double_ONE: "is_double ONE"
proof -
  have "bitlen ONE = Suc 1074"
    unfolding ONE_def by (rule bitlen_eqI) simp_all
  moreover have "(2::nat) ^ 1022 dvd 2 ^ 1074"
    by (rule le_imp_power_dvd) simp
  ultimately show ?thesis
    by (simp add: is_double_def ONE_def)
qed

lemma is_double_zero: "is_double 0"
  by (simp add: is_double_def)

text \<open>
  The profile in memory: every weight is decayed, then the weight of the topic, and
  only that one, is incremented.
\<close>

lemma map_of_decay_all: "map_of (decay_all p) k = map_option times_decay (map_of p k)"
  by (induction p) (auto simp: decay_all_def)

lemma profile_in_memory_no_topic:
  assumes "topic req = None"
  shows "profile_in_memory st req = decay_all (load_or_create (findOne st (userId req)))"
  using assms by (simp add: profile_in_memory_def reinforce_def)

lemma profile_in_memory_topic:
  assumes "topic req = Some t" and "t \<noteq> []" and "trim t \<noteq> []"
    and "map_of (load_or_create (findOne st (userId req))) (trim (toLowerCase t)) = Some (Number w)"
  shows "map_of (profile_in_memory st req) (trim (toLowerCase t)) =
           Some (Number (increment (decay w)))"
  using assms
  by (simp add: profile_in_memory_def reinforce_def Let_def map_of_decay_all update_conv')

lemma profile_in_memory_new_topic:
  assumes "topic req = Some t" and "t \<noteq> []" and "trim t \<noteq> []"
    and "map_of (load_or_create (findOne st (userId req))) (trim (toLowerCase t)) = None"
    and "trim (toLowerCase t) \<noteq> ''constructor''" and "trim (toLowerCase t) \<noteq> ''__proto__''"
  shows "map_of (profile_in_memory st req) (trim (toLowerCase t)) = Some (Number ONE)"
  using assms
  by (simp add: profile_in_memory_def reinforce_def Let_def map_of_decay_all update_conv'
        increment_zero)

lemma profile_in_memory_other:
  assumes "topic req = Some t" and "k \<noteq> trim (toLowerCase t)"
  shows "map_of (profile_in_memory st req) k =
           map_option times_decay (map_of (load_or_create (findOne st (userId req))) k)"
  using assms
  by (simp add: profile_in_memory_def reinforce_def Let_def map_of_decay_all update_conv'
        split: option.split)

text \<open>
  The two inherited names: the first request of a user with the topic
  \<^verbatim>\<open>constructor\<close> holds a string where a weight should be, and one with the topic
  \<^verbatim>\<open>__proto__\<close> holds nothing.
\<close>

lemma reinforce_constructor:
  "reinforce (Some ''constructor'') [] = [(''constructor'', SourceText)]"
proof -
  have "strip white_space ''constructor'' = ''constructor''"
    by (rule strip_none) (simp add: white_space_def)
  moreover have "strip (map rev white_space) ''rotcurtsnoc'' = ''rotcurtsnoc''"
    by (rule strip_none) (simp add: white_space_def)
  ultimately have "trim ''constructor'' = ''constructor''"
    by (simp add: trim_def)
  moreover have "toLowerCase ''constructor'' = ''constructor''"
    by (simp add: toLowerCase_def toLowerCase_char_def)
  ultimately show ?thesis
    by (simp add: reinforce_def)
qed

lemma reinforce_proto: "reinforce (Some ''__proto__'') [] = []"
proof -
  have "strip white_space ''__proto__'' = ''__proto__''"
    by (rule strip_none) (simp add: white_space_def)
  moreover have "strip (map rev white_space) ''__otorp__'' = ''__otorp__''"
    by (rule strip_none) (simp add: white_space_def)
  ultimately have "trim ''__proto__'' = ''__proto__''"
    by (simp add: trim_def)
  moreover have "toLowerCase ''__proto__'' = ''__proto__''"
    by (simp add: toLowerCase_def toLowerCase_char_def)
  ultimately show ?thesis
    by (simp add: reinforce_def)
qed

text \<open>
  The handler keeps the numbers of a profile within the finite doubles: neither the
  decay nor the increment overflows.
\<close>

lemma update_values:
  assumes "kw \<in> set (AList.update k v p)"
  shows "snd kw = v \<or> kw \<in> set p"
  using assms
proof (induction p)
  case Nil
  then show ?case by simp
next
  case (Cons a p)
  then show ?case
    by (cases a) (auto split: if_splits)
qed

lemma times_decay_finite: "finite_weight w \<Longrightarrow> finite_weight (times_decay w)"
  by (cases w) (simp_all add: finite_weight_def decay_is_double)

lemma or_zero_plus_one_finite: "finite_weight w \<Longrightarrow> finite_weight (or_zero_plus_one w)"
  by (cases w) (simp_all add: finite_weight_def increment_is_double is_double_zero)

lemma decay_all_finite:
  assumes "\<forall>kw \<in> set p. finite_weight (snd kw)"
  shows "\<forall>kw \<in> set (decay_all p). finite_weight (snd kw)"
proof
  fix kw
  assume "kw \<in> set (decay_all p)"
  then obtain k v where mem: "(k, v) \<in> set p" and kw: "kw = (k, times_decay v)"
    by (auto simp: decay_all_def)
  from assms mem have "finite_weight (snd (k, v))"
    by (rule bspec)
  then show "finite_weight (snd kw)"
    unfolding kw by (simp add: times_decay_finite)
qed

lemma reinforce_finite:
  assumes "\<forall>kw \<in> set p. finite_weight (snd kw)"
  shows "\<forall>kw \<in> set (reinforce tp p). finite_weight (snd kw)"
proof (cases "\<exists>t. tp = Some t \<and> t \<noteq> [] \<and> trim t \<noteq> []")
  case False
  then have "reinforce tp p = p"
    by (cases tp) (auto simp: reinforce_def)
  with assms show ?thesis
    by simp
next
  case True
  then obtain t where t: "tp = Some t" "t \<noteq> []" "trim t \<noteq> []"
    by blast
  define k where "k = trim (toLowerCase t)"
  have "\<exists>v. finite_weight v \<and> (reinforce tp p = p \<or> reinforce tp p = AList.update k v p)"
  proof (cases "map_of p k")
    case None
    have "finite_weight SourceText" "finite_weight (Number (increment 0))"
      by (simp_all add: finite_weight_def increment_is_double is_double_zero)
    with None t show ?thesis
      by (auto simp: reinforce_def k_def [symmetric] Let_def)
  next
    case (Some w)
    then have "(k, w) \<in> set p"
      by (rule map_of_SomeD)
    with assms have "finite_weight (snd (k, w))"
      by (rule bspec)
    then have "finite_weight (or_zero_plus_one w)"
      by (simp add: or_zero_plus_one_finite)
    with Some t show ?thesis
      by (auto simp: reinforce_def k_def [symmetric] Let_def)
  qed
  then obtain v where v: "finite_weight v"
    and r: "reinforce tp p = p \<or> reinforce tp p = AList.update k v p"
    by blast
  show ?thesis
  proof
    fix kw
    assume "kw \<in> set (reinforce tp p)"
    with r have "kw \<in> set p \<or> kw \<in> set (AList.update k v p)"
      by auto
    then have "snd kw = v \<or> kw \<in> set p"
      by (auto dest: update_values)
    with assms v show "finite_weight (snd kw)"
      by auto
  qed
qed

lemma profile_in_memory_finite:
  assumes "\<forall>kw \<in> set (load_or_create (findOne st (userId req))). finite_weight (snd kw)"
  shows "\<forall>kw \<in> set (profile_in_memory st req). finite_weight (snd kw)"
  unfolding profile_in_memory_def Let_def
  by (rule reinforce_finite, rule decay_all_finite, rule assms)

text \<open>
  What \<^verbatim>\<open>save\<close> does to the collection. The caches are not touched. A stored profile
  is never written again, whatever the requests that follow. The profile in memory is
  written for a user that was not there, and for a document without a profile.
\<close>

lemma save_caches:
  assumes "save st uid found user = Inr st'"
  shows "responseCache st' = responseCache st" and "pendingRequests st' = pendingRequests st"
  using assms by (auto simp: save_def split: option.splits document.splits if_splits)

lemma save_succeeds:
  assumes "u \<noteq> []"
  shows "\<exists>st'. save st (Some u) found user = Inr st'"
  using assms by (simp add: save_def split: option.split document.split)

lemma save_keeps_stored:
  assumes "users st u = Some (WithProfile p)"
    and "save st uid (findOne st uid) user = Inr st'"
  shows "users st' u = Some (WithProfile p)"
  using assms by (auto simp: save_def findOne_def split: option.splits document.splits if_splits)

lemma users_after_start:
  "users (fst (recommend_start st rid req now)) =
     (case save st (userId req) (findOne st (userId req)) (profile_in_memory st req) of
        Inl err \<Rightarrow> users st
      | Inr st' \<Rightarrow> users st')"
  by (simp add: recommend_start_def Let_def split: sum.split prod.split option.split)

lemma stored_profile_kept:
  assumes "users st u = Some (WithProfile p)"
  shows "users (fst (recommend_start st rid req now)) u = Some (WithProfile p)"
proof (cases "save st (userId req) (findOne st (userId req)) (profile_in_memory st req)")
  case (Inl err)
  with assms show ?thesis
    by (simp add: users_after_start)
next
  case (Inr st')
  with assms have "users st' u = Some (WithProfile p)"
    by (rule save_keeps_stored)
  with Inr show ?thesis
    by (simp add: users_after_start)
qed

lemma new_profile_inserted:
  assumes "userId req = Some u" and "u \<noteq> []" and "users st u = None"
  shows "users (fst (recommend_start st rid req now)) u =
           Some (if profile_in_memory st req = [] then WithoutProfile
                 else WithProfile (profile_in_memory st req))"
  using assms by (simp add: users_after_start save_def findOne_def)

lemma default_profile_written:
  assumes "userId req = Some u" and "users st u = Some WithoutProfile"
  shows "users (fst (recommend_start st rid req now)) u = Some (WithProfile (profile_in_memory st req))"
  using assms by (simp add: users_after_start save_def findOne_def)

lemma save_rejects:
  assumes "userId req = None \<or> userId req = Some []" and "findOne st (userId req) = None"
  shows "recommend_start st rid req now = (st, Responded InternalServerError)"
  using assms by (auto simp: recommend_start_def save_def Let_def)

lemma recommend_finish_users: "users (fst (recommend_finish e st req now)) = users st"
  by (simp add: recommend_finish_def Let_def split: prod.split sum.split)

lemma after_requests_kept:
  assumes "users st u = Some (WithProfile p)"
  shows "users (after_requests rs req st) u = Some (WithProfile p)"
  using assms
proof (induction rs arbitrary: st)
  case Nil
  then show ?case by (simp add: after_requests_def)
next
  case (Cons r rs)
  obtain rid now where r: "r = (rid, now)"
    by (cases r)
  have step: "after_requests (r # rs) req st =
      after_requests rs req (fst (recommend_start st rid req now))"
    by (simp add: after_requests_def r)
  from Cons.prems have "users (fst (recommend_start st rid req now)) u = Some (WithProfile p)"
    by (rule stored_profile_kept)
  then show ?case
    unfolding step by (rule Cons.IH)
qed

text \<open>The server after the first request of user \<^verbatim>\<open>u1\<close>.\<close>

lemma returning_user_state_unfold:
  "returning_user_state =
     \<lparr>users = [''u1'' \<mapsto> WithProfile [(''arrays'', Number ONE)]],
       responseCache = setCache ''LeetCode-practice-arrays''
                         (Recommendations (take 5 example_candidates)) 1 Map.empty,
       pendingRequests = Map.empty\<rparr>"
  unfolding returning_user_state_def recommend_models_down
  by (simp add: increment_zero)

lemma findOne_returning_user:
  "findOne returning_user_state (Some ''u1'') = Some (WithProfile [(''arrays'', Number ONE)])"
  by (simp add: findOne_def returning_user_state_unfold)

lemma profile_in_memory_returning_topic:
  "profile_in_memory returning_user_state two_sum_request =
     [(''arrays'', Number (increment (decay ONE)))]"
  by (simp add: profile_in_memory_def request_fields findOne_returning_user load_or_create_def
        decay_all_def reinforce_def toLowerCase_arrays trim_arrays)

lemma profile_in_memory_returning_idle:
  assumes "users st ''u1'' = Some (WithProfile [(''arrays'', Number ONE)])"
  shows "profile_in_memory st idle_request = [(''arrays'', Number (decay ONE))]"
  using assms
  by (simp add: profile_in_memory_def request_fields findOne_def load_or_create_def
        decay_all_def reinforce_def)

section \<open>The two ends of the handler\<close>

text \<open>
  A request that misses the cache while another one holds the key ends without a
  response. A computation that is fulfilled removes the pending entry; one that is
  rejected leaves the map of pending requests as it is, and a failure of the
  practice-problem adapter rejects the computation.
\<close>

lemma join_sends_nothing:
  assumes uid: "userId req = Some u" "u \<noteq> []"
    and miss: "fst (getCache (cacheKey req) now (responseCache st)) = None"
    and pending: "pendingRequests st (cacheKey req) = Some promise"
  shows "snd (recommend_start st rid req now) = ReturnedPending promise \<and>
         response_sent (snd (recommend_start st rid req now)) = None"
proof -
  obtain st' where saved:
    "save st (userId req) (findOne st (userId req)) (profile_in_memory st req) = Inr st'"
    using save_succeeds [OF uid(2)] unfolding uid(1) by blast
  note caches = save_caches [OF saved]
  obtain cache where "getCache (cacheKey req) now (responseCache st) = (None, cache)"
    using miss by (cases "getCache (cacheKey req) now (responseCache st)") simp
  with pending have "snd (recommend_start st rid req now) = ReturnedPending promise"
    by (simp add: recommend_start_def saved caches Let_def)
  then show ?thesis
    by (simp add: response_sent_def)
qed

lemma fulfilled_removes_entry:
  assumes "snd (snd (requestPromise e req now (responseCache st))) = Inr r"
  shows "pendingRequests (fst (recommend_finish e st req now)) (cacheKey req) = None \<and>
         fst (snd (recommend_finish e st req now)) = Json r"
proof -
  obtain tr cache where "requestPromise e req now (responseCache st) = (tr, cache, Inr r)"
    using assms by (cases "requestPromise e req now (responseCache st)") simp
  then show ?thesis
    by (simp add: recommend_finish_def Let_def)
qed

lemma rejected_keeps_entry:
  assumes "snd (snd (requestPromise e req now (responseCache st))) = Inl err"
  shows "pendingRequests (fst (recommend_finish e st req now)) = pendingRequests st \<and>
         fst (snd (recommend_finish e st req now)) = InternalServerError"
proof -
  obtain tr cache where "requestPromise e req now (responseCache st) = (tr, cache, Inl err)"
    using assms by (cases "requestPromise e req now (responseCache st)") simp
  then show ?thesis
    by (simp add: recommend_finish_def Let_def)
qed

lemma adapter_failure_rejects:
  assumes "platform req = Some ''LeetCode'' \<or> platform req = Some ''HackerRank''"
    and "topic req = Some t" and "description req = Some d" and "t \<noteq> []" and "d \<noteq> []"
    and "fetchLeetCodeCandidates e t = Inl err"
  shows "requestPromise e req now cache = ([], cache, Inl err)"
  using assms
  by (auto simp: requestPromise_def leetcode_branch_def hackerrank_branch_def)

chapter \<open>Properties\<close>

section \<open>Request deduplication\<close>

text \<open>
  Claim C1. Two concurrent requests with the same cache key should run one computation
  and both receive its result. On the code, two identical requests for user \<^verbatim>\<open>u1\<close> arrive
  at an empty server, the second one while the first still waits for its computation.
  The first stores its promise and waits; the second finds the pending entry, and its
  handler returns that promise (line 365) without sending anything: Express does not
  use the value a handler returns. When the computation of the first request settles
  (here with every model call refused), the first request is answered with the five raw
  candidates; the second request has no response and no code left that could send one.
  So one computation runs, as claimed, but only one of the two callers gets its result.
\<close>

theorem joining_request_gets_no_response:
  "(let (s1, first) = recommend_start empty_state 1 two_sum_request 0;
        (s2, second) = recommend_start s1 2 two_sum_request 1;
        (s3, answer, tr) = recommend_finish models_down s2 two_sum_request 5
    in first = Awaiting \<and>
       second = ReturnedPending 1 \<and>
       response_sent second = None \<and>
       answer = Json (Recommendations (take 5 example_candidates)))"
proof -
  have second:
    "snd (recommend_start
            \<lparr>users = [''u1'' \<mapsto> WithProfile [(''arrays'', Number (increment 0))]],
              responseCache = Map.empty,
              pendingRequests = [''LeetCode-practice-arrays'' \<mapsto> 1]\<rparr> 2 two_sum_request 1)
       = ReturnedPending 1"
    by (simp add: recommend_start_def cacheKey_two_sum getCache_def Let_def request_fields
          findOne_def save_def)
  show ?thesis
    by (simp add: start_two_sum second [simplified] recommend_finish_def
          requestPromise_models_down response_sent_def split: prod.split)
       (use second in \<open>simp add: prod_eq_iff\<close>)
qed

section \<open>Removal of the pending entry\<close>

text \<open>
  Claim C2. The pending entry should be removed when the computation settles, whether it
  succeeded or failed. On the code, \<^verbatim>\<open>pendingRequests.delete\<close> (line 544) follows
  \<^verbatim>\<open>await requestPromise\<close> inside the \<^verbatim>\<open>try\<close> block, so it is skipped when the promise
  rejects. Here the practice-problem adapter throws, which no inner \<^verbatim>\<open>try\<close> covers: the
  request is answered with the status 500, its entry stays in the map, and the next
  request with the same key joins the rejected promise instead of computing again.
\<close>

theorem rejected_computation_leaves_pending_entry:
  "(let (s1, first) = recommend_start empty_state 1 two_sum_request 0;
        (s2, answer, tr) = recommend_finish adapter_down s1 two_sum_request 1;
        (s3, later) = recommend_start s2 2 two_sum_request 2
    in first = Awaiting \<and>
       answer = InternalServerError \<and>
       pendingRequests s2 (cacheKey two_sum_request) = Some 1 \<and>
       later = ReturnedPending 1 \<and>
       response_sent later = None)"
proof -
  have rp: "requestPromise adapter_down two_sum_request now cache = ([], cache, Inl AdapterError)"
    for now cache
    by (simp add: requestPromise_def leetcode_branch_def two_sum_request_def adapter_down_def)
  have later:
    "snd (recommend_start
            \<lparr>users = [''u1'' \<mapsto> WithProfile [(''arrays'', Number (increment 0))]],
              responseCache = Map.empty,
              pendingRequests = [''LeetCode-practice-arrays'' \<mapsto> 1]\<rparr> 2 two_sum_request 2)
       = ReturnedPending 1"
    by (simp add: recommend_start_def cacheKey_two_sum getCache_def Let_def request_fields
          findOne_def save_def)
  show ?thesis
    by (simp add: start_two_sum recommend_finish_def rp cacheKey_two_sum response_sent_def
          split: prod.split)
       (use later in \<open>simp add: prod_eq_iff\<close>)
qed

section \<open>Retry and fallback of the generation call\<close>

text \<open>
  Claim C3. Let \<open>k\<close> be the number of retries of a call, \<open>retries_made net\<close>. At most three
  retries are made; each attempt before the last was answered with the status 429, and
  the last attempt was not, unless the three retries are used up. The trace of the primary
  endpoint is \<open>k + 1\<close> requests with a delay of 2000 ms between two of them. When the
  primary endpoint has answered, nothing else is sent; otherwise (another error, the
  retries used up, or a body that cannot be read) exactly one request goes to the
  fallback endpoint, after the primary ones and without a delay or a retry. When that
  request is rejected as well the result is the string \<^verbatim>\<open>"[]"\<close>. In every case the call
  returns a value and no exception.
\<close>

theorem generateWithAI_retry_then_fallback:
  "retries_made net \<le> 3 \<and>
   (\<forall>j<retries_made net. net Primary j = Rejected (Some 429)) \<and>
   (retries_made net < 3 \<longrightarrow> net Primary (retries_made net) \<noteq> Rejected (Some 429)) \<and>
   (primary_answered net \<longrightarrow>
      fst (generateWithAI net) = attempts Primary (retries_made net)) \<and>
   (\<not> primary_answered net \<longrightarrow>
      fst (generateWithAI net) = attempts Primary (retries_made net) @ [Post Fallback]) \<and>
   count_list (fst (generateWithAI net)) (Post Fallback) = (if primary_answered net then 0 else 1) \<and>
   (\<not> primary_answered net \<and> rejected (net Fallback 0) \<longrightarrow>
      snd (generateWithAI net) = Inr (JStr ''[]'')) \<and>
   (\<exists>text. snd (generateWithAI net) = Inr text)"
proof -
  have cnt: "count_list (fst (generateWithAI net)) (Post Fallback) =
      (if primary_answered net then 0 else 1)"
    by (simp add: generateWithAI_trace count_attempts)
  have res: "\<exists>text. snd (generateWithAI net) = Inr text"
    by (simp add: generateWithAI_unfold Let_def split: reply.split sum.split)
  from cnt res generateWithAI_trace [of net] generateWithAI_fallback_rejected [of net]
    retries_made_le [of net] retries_made_429 [of _ net] retries_made_last [of net]
  show ?thesis by simp
qed

text \<open>
  Two rate-limited attempts, a third one refused with the status 500, and a rejected
  fallback call.
\<close>

theorem generateWithAI_retry_then_fallback_witness:
  "generateWithAI flaky_network =
     ([Post Primary, Delay 2000, Post Primary, Delay 2000, Post Primary, Post Fallback],
      Inr (JStr ''[]''))"
proof -
  have k: "retries_made flaky_network = 2"
    by (rule retries_made_flaky)
  have na: "\<not> primary_answered flaky_network"
    by (simp add: primary_answered_def k) (simp add: flaky_network_def)
  have rj: "rejected (flaky_network Fallback 0)"
    by (simp add: rejected_def flaky_network_def)
  have at: "attempts Primary 2 = [Post Primary, Delay 2000, Post Primary, Delay 2000, Post Primary]"
    by (simp add: attempts_def numeral_2_eq_2)
  from generateWithAI_retry_then_fallback [of flaky_network] na rj
  have "fst (generateWithAI flaky_network) = attempts Primary 2 @ [Post Fallback]"
    and "snd (generateWithAI flaky_network) = Inr (JStr ''[]'')"
    unfolding k by blast+
  then show ?thesis
    unfolding at by (simp add: prod_eq_iff)
qed

section \<open>Order of decay and reinforcement\<close>

text \<open>
  Claim C4. Every request should decay the weights of the user's profile, then add one
  to the weight of the topic, and save the profile, with or without a topic. On the
  code the order is as claimed, but only in memory. User \<^verbatim>\<open>u1\<close> has made one request
  with the topic \<^verbatim>\<open>arrays\<close>, which created the document with the weight \<open>1.0\<close>. On the
  second request with that topic the handler holds \<open>1.0 * 0.98 + 1 = 1.98\<close> when it calls
  \<^verbatim>\<open>user.save()\<close>; on a request without a topic it holds \<open>0.98\<close>. In both cases the call
  resolves and the handler goes on (to an answer from the cache, and to a computation),
  and the stored weight is \<open>1.0\<close> as before: the weights were changed inside a value of
  mixed type and \<^verbatim>\<open>markModified\<close> was not called, so \<^verbatim>\<open>save\<close> had nothing to write. The
  comment in line 352 reads \<^verbatim>\<open>Always save (important)\<close>.
\<close>

theorem existing_profile_is_not_saved:
  "(let st = returning_user_state;
        (s1, with_topic) = recommend_start st 2 two_sum_request 5;
        (s2, without_topic) = recommend_start st 3 idle_request 5
    in users st ''u1'' = Some (WithProfile [(''arrays'', Number ONE)]) \<and>
       profile_in_memory st two_sum_request = [(''arrays'', Number (increment (decay ONE)))] \<and>
       increment (decay ONE) = 8917127262193582 * 2 ^ 1022 \<and>
       with_topic = Responded (Json (Recommendations (take 5 example_candidates))) \<and>
       users s1 ''u1'' = Some (WithProfile [(''arrays'', Number ONE)]) \<and>
       profile_in_memory st idle_request = [(''arrays'', Number (decay ONE))] \<and>
       decay ONE = DECAY * 2 ^ 1021 \<and>
       without_topic = Awaiting \<and>
       users s2 ''u1'' = Some (WithProfile [(''arrays'', Number ONE)]))"
proof -
  have stored: "users returning_user_state ''u1'' = Some (WithProfile [(''arrays'', Number ONE)])"
    by (simp add: returning_user_state_unfold)
  have kept1: "users (fst (recommend_start returning_user_state 2 two_sum_request 5)) ''u1''
      = Some (WithProfile [(''arrays'', Number ONE)])"
    using stored by (rule stored_profile_kept)
  have kept2: "users (fst (recommend_start returning_user_state 3 idle_request 5)) ''u1''
      = Some (WithProfile [(''arrays'', Number ONE)])"
    using stored by (rule stored_profile_kept)
  have out1: "snd (recommend_start returning_user_state 2 two_sum_request 5)
      = Responded (Json (Recommendations (take 5 example_candidates)))"
    unfolding recommend_start_def Let_def request_fields findOne_returning_user cacheKey_two_sum
    by (simp add: save_def returning_user_state_unfold getCache_def setCache_def CACHE_TTL_def)
  have key: "cacheKey idle_request = ''Coursera-undefined-undefined''"
    by (simp add: cacheKey_def template_def idle_request_def)
  have out2: "snd (recommend_start returning_user_state 3 idle_request 5) = Awaiting"
    unfolding recommend_start_def Let_def request_fields findOne_returning_user key
    by (simp add: save_def returning_user_state_unfold getCache_def setCache_def)
  from stored kept1 kept2 out1 out2 profile_in_memory_returning_topic
    profile_in_memory_returning_idle [OF stored] increment_decay_one decay_one
  show ?thesis
    by (simp add: Let_def case_prod_beta)
qed

section \<open>Repeated decay\<close>

text \<open>
  Claim C5. Every request without a topic should make every weight of the profile
  smaller by the factor 0.98, so that the weights shrink from request to request. On the
  code they do not. User \<^verbatim>\<open>u1\<close> has the stored weight \<open>1.0\<close> from a first request. Two
  requests without a topic follow. Each of them loads \<open>1.0\<close>, multiplies it by \<^verbatim>\<open>0.98\<close>
  in memory, and calls \<^verbatim>\<open>user.save()\<close>, which writes nothing for a document that was
  loaded (see \<open>save\<close>). So the second request starts from \<open>1.0\<close> again, not from \<open>0.98\<close>,
  it holds \<open>0.98\<close> and not \<open>0.98 * 0.98\<close>, and the stored weight is \<open>1.0\<close> after both
  requests: it is neither decreased nor changed at all.
\<close>

theorem decay_does_not_accumulate:
  "(let s0 = returning_user_state;
        s1 = after_requests [(2, 10)] idle_request s0;
        s2 = after_requests [(2, 10), (3, 20)] idle_request s0
    in topic idle_request = None \<and>
       users s0 ''u1'' = Some (WithProfile [(''arrays'', Number ONE)]) \<and>
       profile_in_memory s0 idle_request = [(''arrays'', Number (decay ONE))] \<and>
       users s1 ''u1'' = Some (WithProfile [(''arrays'', Number ONE)]) \<and>
       profile_in_memory s1 idle_request = [(''arrays'', Number (decay ONE))] \<and>
       users s2 ''u1'' = Some (WithProfile [(''arrays'', Number ONE)]) \<and>
       decay ONE = DECAY * 2 ^ 1021 \<and>
       decay ONE < ONE \<and>
       decay (decay ONE) < decay ONE)"
proof -
  have stored: "users returning_user_state ''u1'' = Some (WithProfile [(''arrays'', Number ONE)])"
    by (simp add: returning_user_state_unfold)
  have kept: "users (after_requests rs idle_request returning_user_state) ''u1''
      = Some (WithProfile [(''arrays'', Number ONE)])" for rs
    using stored by (rule after_requests_kept)
  have big: "25 \<le> ONE" "25 \<le> DECAY * 2 ^ 1021"
    by (simp_all add: ONE_def DECAY_def)
  have less: "decay ONE < ONE"
    using is_double_ONE big(1) by (rule decay_less)
  have "is_double (decay ONE)"
    using is_double_ONE by (rule decay_is_double)
  moreover have "25 \<le> decay ONE"
    unfolding decay_one by (rule big(2))
  ultimately have less': "decay (decay ONE) < decay ONE"
    by (rule decay_less)
  from stored kept less less' decay_one
    profile_in_memory_returning_idle [OF stored] profile_in_memory_returning_idle [OF kept]
  show ?thesis
    by (simp add: Let_def request_fields)
qed

section \<open>Cache round trip\<close>

text \<open>
  Claim C6. A payload stored under a key at time \<open>t0\<close> and read at time \<open>t1\<close> comes
  back unchanged, and the cache is left as it was, as long as no more than the
  30-minute TTL (1800000 ms) has elapsed; this covers every read before the TTL has
  elapsed. Once more than the TTL has elapsed the read yields absence and the entry is
  gone from the map afterwards: eviction happens on the read itself.
\<close>

theorem cache_round_trip:
  "CACHE_TTL = 1800000 \<and>
   (t1 - t0 \<le> CACHE_TTL \<longrightarrow>
      getCache key t1 (setCache key d t0 c) = (Some d, setCache key d t0 c)) \<and>
   (t1 - t0 > CACHE_TTL \<longrightarrow>
      fst (getCache key t1 (setCache key d t0 c)) = None \<and>
      snd (getCache key t1 (setCache key d t0 c)) key = None \<and>
      snd (getCache key t1 (setCache key d t0 c)) = (setCache key d t0 c)(key := None))"
  by (simp add: getCache_def setCache_def CACHE_TTL_def)

theorem cache_round_trip_witness:
  "getCache ''YouTube-video-python'' 1799999 (setCache ''YouTube-video-python'' (7::nat) 0 Map.empty)
     = (Some 7, setCache ''YouTube-video-python'' 7 0 Map.empty) \<and>
   fst (getCache ''YouTube-video-python'' 1800001
          (setCache ''YouTube-video-python'' (7::nat) 0 Map.empty)) = None \<and>
   snd (getCache ''YouTube-video-python'' 1800001
          (setCache ''YouTube-video-python'' (7::nat) 0 Map.empty)) ''YouTube-video-python'' = None"
proof -
  have before: "(1799999::int) - 0 \<le> CACHE_TTL"
    by (simp add: CACHE_TTL_def)
  have after: "(1800001::int) - 0 > CACHE_TTL"
    by (simp add: CACHE_TTL_def)
  from before after
    cache_round_trip [of 1799999 0 "''YouTube-video-python''" "7::nat" Map.empty]
    cache_round_trip [of 1800001 0 "''YouTube-video-python''" "7::nat" Map.empty]
  show ?thesis by blast
qed

section \<open>Fallback to the raw candidates\<close>

text \<open>
  Claim C7. Take a request for LeetCode or HackerRank with a topic and a description
  (both non-empty) and a \<^verbatim>\<open>userId\<close>, which finds neither a fresh cache entry nor a pending
  computation for its key, so that it computes, and let the adapter return its
  candidates. Let the generation service fail on both endpoints: the last attempt on the
  primary endpoint is rejected (or resolves with a body that cannot be read; this is the
  case in particular when every request to that endpoint is rejected), and the request to
  the fallback endpoint is rejected. Then the requests sent are the attempts on the
  primary endpoint followed by the one on the fallback endpoint, and the response is the
  object whose recommendations are the first five candidates of the adapter, in the
  adapter's order, and nothing else.
\<close>

theorem practice_request_falls_back_to_raw_candidates:
  assumes plat: "platform req = Some ''LeetCode'' \<or> platform req = Some ''HackerRank''"
    and uid: "userId req = Some u" "u \<noteq> []"
    and tp: "topic req = Some t" "t \<noteq> []"
    and ds: "description req = Some d" "d \<noteq> []"
    and miss: "fst (getCache (cacheKey req) t1 (responseCache st)) = None"
    and free: "pendingRequests st (cacheKey req) = None"
    and fetch: "fetchLeetCodeCandidates e t = Inr candidates"
    and primary: "\<not> primary_answered (network e)"
    and fallback: "rejected (network e Fallback 0)"
  shows "fst (snd (recommend e st rid req t1 t2)) =
           Some (Json (Recommendations (take 5 candidates))) \<and>
         snd (snd (recommend e st rid req t1 t2)) =
           attempts Primary (retries_made (network e)) @ [Post Fallback]"
proof -
  obtain st' where saved:
    "save st (userId req) (findOne st (userId req)) (profile_in_memory st req) = Inr st'"
    using save_succeeds [OF uid(2)] unfolding uid(1) by blast
  note caches = save_caches [OF saved]
  obtain cache where look: "getCache (cacheKey req) t1 (responseCache st) = (None, cache)"
    using miss by (cases "getCache (cacheKey req) t1 (responseCache st)") simp
  define s1 where "s1 = st'\<lparr>responseCache := cache,
    pendingRequests := (pendingRequests st)(cacheKey req \<mapsto> rid)\<rparr>"
  have start: "recommend_start st rid req t1 = (s1, Awaiting)"
    by (simp add: recommend_start_def saved caches look free s1_def Let_def)
  obtain tr cache' settled
    where rp: "requestPromise e req t2 (responseCache s1) = (tr, cache', settled)"
    by (cases "requestPromise e req t2 (responseCache s1)")
  from requestPromise_falls_back [OF plat tp ds fetch primary fallback, of t2 "responseCache s1"]
  have "tr = attempts Primary (retries_made (network e)) @ [Post Fallback]"
    and "settled = Inr (Recommendations (take 5 candidates))"
    unfolding rp by simp_all
  with start rp show ?thesis
    by (simp add: recommend_def recommend_finish_def Let_def)
qed

text \<open>
  A LeetCode and a HackerRank request at an empty server, with six candidates and both
  endpoints down.
\<close>

theorem practice_request_falls_back_to_raw_candidates_witness:
  "fst (snd (recommend models_down empty_state 1 two_sum_request 0 1)) =
     Some (Json (Recommendations (take 5 example_candidates))) \<and>
   snd (snd (recommend models_down empty_state 1 two_sum_request 0 1)) =
     [Post Primary, Post Fallback] \<and>
   fst (snd (recommend models_down empty_state 1
               (two_sum_request\<lparr>platform := Some ''HackerRank''\<rparr>) 0 1)) =
     Some (Json (Recommendations (take 5 example_candidates))) \<and>
   snd (snd (recommend models_down empty_state 1
               (two_sum_request\<lparr>platform := Some ''HackerRank''\<rparr>) 0 1)) =
     [Post Primary, Post Fallback]"
proof -
  let ?hr = "two_sum_request\<lparr>platform := Some ''HackerRank''\<rparr>"
  have plat: "platform two_sum_request = Some ''LeetCode''
      \<or> platform two_sum_request = Some ''HackerRank''"
    and plat': "platform ?hr = Some ''LeetCode'' \<or> platform ?hr = Some ''HackerRank''"
    by (simp_all add: two_sum_request_def)
  have uid: "userId two_sum_request = Some ''u1''" "userId ?hr = Some ''u1''" "''u1'' \<noteq> []"
    and tp: "topic two_sum_request = Some ''arrays''" "topic ?hr = Some ''arrays''"
      "''arrays'' \<noteq> []"
    and ds: "description two_sum_request = Some ''Two Sum''" "description ?hr = Some ''Two Sum''"
      "''Two Sum'' \<noteq> []"
    by (simp_all add: two_sum_request_def)
  have miss: "fst (getCache key 0 (responseCache empty_state)) = None"
    and free: "pendingRequests empty_state key = None" for key
    by (simp_all add: getCache_def empty_state_def)
  have fetch: "fetchLeetCodeCandidates models_down ''arrays'' = Inr example_candidates"
    by (simp add: models_down_def)
  have primary: "\<not> primary_answered (network models_down)"
    by (simp add: primary_answered_def retries_made_models_down) (simp add: models_down_def)
  have fallback: "rejected (network models_down Fallback 0)"
    by (simp add: models_down_def rejected_def)
  have at: "attempts Primary (retries_made (network models_down)) @ [Post Fallback]
      = [Post Primary, Post Fallback]"
    by (simp add: retries_made_models_down attempts_def)
  note lc = practice_request_falls_back_to_raw_candidates
    [OF plat uid(1,3) tp(1,3) ds(1,3) miss free fetch primary fallback, of 1 1]
  note hr = practice_request_falls_back_to_raw_candidates
    [OF plat' uid(2,3) tp(2,3) ds(2,3) miss free fetch primary fallback, of 1 1]
  from lc hr show ?thesis
    unfolding at by blast
qed

section \<open>Caching of the fallback result\<close>

text \<open>
  Claim C8. Take two requests that differ in the platform only, LeetCode and HackerRank,
  with a topic and a description, and let the adapter return candidates. When the
  \<^verbatim>\<open>try\<close> block fails, both computations return the first five candidates; the LeetCode
  one stores them in the cache under its key, the HackerRank one leaves the cache as it
  is. When the \<^verbatim>\<open>try\<close> block succeeds, both store the normalized result under their key
  and return it.
\<close>

theorem fallback_is_cached_for_leetcode_only:
  assumes "topic req = Some t" and "description req = Some d" and "t \<noteq> []" and "d \<noteq> []"
    and "fetchLeetCodeCandidates e t = Inr candidates"
  shows
    "(let lc = req\<lparr>platform := Some ''LeetCode''\<rparr>;
          hr = req\<lparr>platform := Some ''HackerRank''\<rparr>;
          fallback = Recommendations (take 5 candidates)
      in case ai_recommendations e of
           (tr, Inl err) \<Rightarrow>
             requestPromise e lc now cache
               = (tr, setCache (cacheKey lc) fallback now cache, Inr fallback) \<and>
             requestPromise e hr now cache = (tr, cache, Inr fallback)
         | (tr, Inr normalized) \<Rightarrow>
             requestPromise e lc now cache
               = (tr, setCache (cacheKey lc) normalized now cache, Inr normalized) \<and>
             requestPromise e hr now cache
               = (tr, setCache (cacheKey hr) normalized now cache, Inr normalized))"
  using assms
  by (simp add: requestPromise_def leetcode_branch_def hackerrank_branch_def Let_def
        split: prod.split sum.split)

text \<open>
  Both platforms on an empty cache, with both endpoints down and with a well-formed
  answer.
\<close>

theorem fallback_is_cached_for_leetcode_only_witness:
  "requestPromise models_down (two_sum_request\<lparr>platform := Some ''LeetCode''\<rparr>) 5 Map.empty
     = ([Post Primary, Post Fallback],
        [''LeetCode-practice-arrays'' \<mapsto>
           \<lparr>data = Recommendations (take 5 example_candidates), timestamp = 5\<rparr>],
        Inr (Recommendations (take 5 example_candidates))) \<and>
   requestPromise models_down (two_sum_request\<lparr>platform := Some ''HackerRank''\<rparr>) 5 Map.empty
     = ([Post Primary, Post Fallback], Map.empty,
        Inr (Recommendations (take 5 example_candidates))) \<and>
   requestPromise models_up (two_sum_request\<lparr>platform := Some ''LeetCode''\<rparr>) 5 Map.empty
     = ([Post Primary],
        [''LeetCode-practice-arrays'' \<mapsto> \<lparr>data = example_normalized, timestamp = 5\<rparr>],
        Inr example_normalized) \<and>
   requestPromise models_up (two_sum_request\<lparr>platform := Some ''HackerRank''\<rparr>) 5 Map.empty
     = ([Post Primary],
        [''HackerRank-practice-arrays'' \<mapsto> \<lparr>data = example_normalized, timestamp = 5\<rparr>],
        Inr example_normalized)"
proof -
  have tp: "topic two_sum_request = Some ''arrays''"
    and ds: "description two_sum_request = Some ''Two Sum''"
    by (simp_all add: two_sum_request_def)
  have ne: "''arrays'' \<noteq> []" "''Two Sum'' \<noteq> []"
    by simp_all
  have down: "fetchLeetCodeCandidates models_down ''arrays'' = Inr example_candidates"
    by (simp add: models_down_def)
  have up: "fetchLeetCodeCandidates models_up ''arrays'' = Inr example_candidates"
    by (simp add: models_up_def)
  note a = fallback_is_cached_for_leetcode_only [OF tp ds ne down, of 5 Map.empty]
  note b = fallback_is_cached_for_leetcode_only [OF tp ds ne up, of 5 Map.empty]
  from a have a': "requestPromise models_down (two_sum_request\<lparr>platform := Some ''LeetCode''\<rparr>) 5 Map.empty
       = ([Post Primary, Post Fallback],
          setCache ''LeetCode-practice-arrays'' (Recommendations (take 5 example_candidates)) 5 Map.empty,
          Inr (Recommendations (take 5 example_candidates))) \<and>
     requestPromise models_down (two_sum_request\<lparr>platform := Some ''HackerRank''\<rparr>) 5 Map.empty
       = ([Post Primary, Post Fallback], Map.empty,
          Inr (Recommendations (take 5 example_candidates)))"
    unfolding ai_recommendations_models_down Let_def cacheKey_two_sum_lc by simp
  from b have b': "requestPromise models_up (two_sum_request\<lparr>platform := Some ''LeetCode''\<rparr>) 5 Map.empty
       = ([Post Primary], setCache ''LeetCode-practice-arrays'' example_normalized 5 Map.empty,
          Inr example_normalized) \<and>
     requestPromise models_up (two_sum_request\<lparr>platform := Some ''HackerRank''\<rparr>) 5 Map.empty
       = ([Post Primary], setCache ''HackerRank-practice-arrays'' example_normalized 5 Map.empty,
          Inr example_normalized)"
    unfolding ai_recommendations_models_up Let_def cacheKey_two_sum_lc cacheKey_two_sum_hr by simp
  from a' b' show ?thesis
    unfolding setCache_def by blast
qed

section \<open>Scoring\<close>

text \<open>
  Claim C9. \<open>scoreCourse\<close> is a function of its three arguments and the constant
  \<open>topicGraph\<close>, so equal calls give equal values. For the title
  \<^verbatim>\<open>"Deep Learning Advanced"\<close>, the topic \<^verbatim>\<open>"machine learning"\<close> and no dominant topics the
  value is 6: the topic itself does not occur in the title, of the five related terms
  of \<^verbatim>\<open>"machine learning"\<close> exactly \<^verbatim>\<open>"deep learning"\<close> occurs (3 points), and of the three
  level words exactly \<^verbatim>\<open>"advanced"\<close> occurs (3 points). Each of the two bonuses alone
  gives 3.
\<close>

theorem scoreCourse_deep_learning_advanced:
  "scoreCourse ''Deep Learning Advanced'' ''machine learning'' [] = 6 \<and>
   map_of topicGraph (toLowerCase ''machine learning'') =
     Some [''deep learning'', ''neural networks'', ''ai'', ''data science'',
           ''supervised learning''] \<and>
   filter (str_includes (toLowerCase ''Deep Learning Advanced''))
     [''deep learning'', ''neural networks'', ''ai'', ''data science'', ''supervised learning'']
     = [''deep learning''] \<and>
   str_includes (toLowerCase ''Deep Learning Advanced'') ''advanced'' \<and>
   \<not> str_includes (toLowerCase ''Deep Learning Advanced'') (toLowerCase ''machine learning'') \<and>
   \<not> str_includes (toLowerCase ''Deep Learning Advanced'') ''beginner'' \<and>
   \<not> str_includes (toLowerCase ''Deep Learning Advanced'') ''intermediate'' \<and>
   scoreCourse ''Deep Learning'' ''machine learning'' [] = 3 \<and>
   scoreCourse ''Advanced'' ''machine learning'' [] = 3"
proof -
  have title: "toLowerCase ''Deep Learning Advanced'' = ''deep learning advanced''"
    by (simp add: toLowerCase_def toLowerCase_char_def)
  have tp: "toLowerCase ''machine learning'' = ''machine learning''"
    by (simp add: toLowerCase_def toLowerCase_char_def)
  have t1: "toLowerCase ''Deep Learning'' = ''deep learning''"
    by (simp add: toLowerCase_def toLowerCase_char_def)
  have t2: "toLowerCase ''Advanced'' = ''advanced''"
    by (simp add: toLowerCase_def toLowerCase_char_def)
  have s6: "scoreCourse ''Deep Learning Advanced'' ''machine learning'' [] = 6"
    unfolding scoreCourse_def title tp by (simp add: topicGraph_def)
  have s3: "scoreCourse ''Deep Learning'' ''machine learning'' [] = 3"
    unfolding scoreCourse_def t1 tp by (simp add: topicGraph_def)
  have s3': "scoreCourse ''Advanced'' ''machine learning'' [] = 3"
    unfolding scoreCourse_def t2 tp by (simp add: topicGraph_def)
  have rel: "map_of topicGraph (toLowerCase ''machine learning'') =
     Some [''deep learning'', ''neural networks'', ''ai'', ''data science'',
           ''supervised learning'']"
    unfolding tp by (simp add: topicGraph_def)
  have hits: "filter (str_includes (toLowerCase ''Deep Learning Advanced''))
     [''deep learning'', ''neural networks'', ''ai'', ''data science'', ''supervised learning'']
     = [''deep learning'']"
    unfolding title by simp
  have words: "str_includes (toLowerCase ''Deep Learning Advanced'') ''advanced''"
    "\<not> str_includes (toLowerCase ''Deep Learning Advanced'') (toLowerCase ''machine learning'')"
    "\<not> str_includes (toLowerCase ''Deep Learning Advanced'') ''beginner''"
    "\<not> str_includes (toLowerCase ''Deep Learning Advanced'') ''intermediate''"
    unfolding title tp by simp_all
  from s6 s3 s3' rel hits words show ?thesis
    by blast
qed

section \<open>Empty answers of the generation call\<close>

text \<open>
  Claim C10. The result is the string \<^verbatim>\<open>"[]"\<close> in each of three situations: every request
  to the primary endpoint and the request to the fallback endpoint are rejected; the
  last attempt on the primary endpoint resolves with a body without text content (and
  then no request goes to the fallback endpoint); the primary endpoint has not answered
  and the fallback endpoint resolves with a body without text content. A caller, who
  sees the result only, cannot tell these situations apart.
\<close>

theorem generateWithAI_empty_text_indistinguishable:
  "((\<forall>j\<le>3. rejected (net Primary j)) \<and> rejected (net Fallback 0) \<longrightarrow>
      snd (generateWithAI net) = Inr (JStr ''[]'')) \<and>
   (\<forall>d. net Primary (retries_made net) = Resolved d \<and> missing_text d \<longrightarrow>
      generateWithAI net = (attempts Primary (retries_made net), Inr (JStr ''[]''))) \<and>
   (\<forall>d. \<not> primary_answered net \<and> net Fallback 0 = Resolved d \<and> missing_text d \<longrightarrow>
      snd (generateWithAI net) = Inr (JStr ''[]''))"
proof (intro conjI allI impI)
  assume a: "(\<forall>j\<le>3. rejected (net Primary j)) \<and> rejected (net Fallback 0)"
  with retries_made_le [of net] have "rejected (net Primary (retries_made net))"
    by simp
  with a show "snd (generateWithAI net) = Inr (JStr ''[]'')"
    by (simp add: generateWithAI_unfold rejected_def Let_def split: reply.splits)
next
  fix d
  assume "net Primary (retries_made net) = Resolved d \<and> missing_text d"
  then show "generateWithAI net = (attempts Primary (retries_made net), Inr (JStr ''[]''))"
    by (simp add: generateWithAI_unfold missing_text_response Let_def)
next
  fix d
  assume a: "\<not> primary_answered net \<and> net Fallback 0 = Resolved d \<and> missing_text d"
  then have "response_text d = Inr (JStr ''[]'')"
    by (simp add: missing_text_response)
  with a show "snd (generateWithAI net) = Inr (JStr ''[]'')"
    by (simp add: generateWithAI_unfold primary_answered_def response_text_def Let_def
          split: reply.splits if_splits)
qed

text \<open>
  An endpoint that answers with the empty object, and the environment with both
  endpoints down.
\<close>

theorem generateWithAI_empty_text_indistinguishable_witness:
  "snd (generateWithAI empty_body_network) = Inr (JStr ''[]'') \<and>
   snd (generateWithAI (network models_down)) = Inr (JStr ''[]'')"
proof -
  have m: "missing_text (JObj [])"
    by (simp add: missing_text_def)
  have r: "empty_body_network Primary (retries_made empty_body_network) = Resolved (JObj [])"
    by (simp add: empty_body_network_def)
  have down: "(\<forall>j\<le>3. rejected (network models_down Primary j)) \<and>
      rejected (network models_down Fallback 0)"
    by (simp add: models_down_def rejected_def)
  from generateWithAI_empty_text_indistinguishable [of empty_body_network] m r
  have "snd (generateWithAI empty_body_network) = Inr (JStr ''[]'')"
    by (metis snd_conv)
  moreover from generateWithAI_empty_text_indistinguishable [of "network models_down"] down
  have "snd (generateWithAI (network models_down)) = Inr (JStr ''[]'')"
    by blast
  ultimately show ?thesis by simp
qed

end
